theory Spec2Isabelle
  imports Main "HOL-Library.FSet" "HOL-Library.Char_ord" "HOL-Library.List_Lexorder"
begin

section \<open>Python values and built-ins used by config\_flow.py\<close>

text \<open>
  Exceptions are values. The datatype lists the instances of Python's \<open>Exception\<close>
  that the module raises, catches or can meet: the three classes imported from
  \<open>rest_api\<close>, \<open>OSError\<close> (with its subclasses), the built-in errors of
  indexing, parsing and attribute access, and \<open>OtherException\<close> for every other
  instance of \<open>Exception\<close>.
\<close>

datatype exn =
    ApiProblem | CannotConnect | InvalidAuth | OSError
  | KeyError | IndexError | ValueError | TypeError | AttributeError
  | OtherException

text \<open>Sequencing of computations that may raise.\<close>

definition bind_e :: "exn + 'a \<Rightarrow> ('a \<Rightarrow> exn + 'b) \<Rightarrow> exn + 'b" where
  "bind_e m f = (case m of Inl e \<Rightarrow> Inl e | Inr x \<Rightarrow> f x)"

text \<open>A list comprehension \<open>[f(x) for x in xs]\<close> whose body may raise: the
  first failing element, in list order, decides.\<close>

fun comprehension :: "('a \<Rightarrow> exn + 'b) \<Rightarrow> 'a list \<Rightarrow> exn + 'b list" where
  "comprehension f [] = Inr []"
| "comprehension f (x # xs) =
     (case f x of
        Inl e \<Rightarrow> Inl e
      | Inr y \<Rightarrow> (case comprehension f xs of Inl e \<Rightarrow> Inl e | Inr ys \<Rightarrow> Inr (y # ys)))"

subsection \<open>Decimal rendering of integers: \<open>str(n)\<close> inside an f-string\<close>

definition digit_char :: "nat \<Rightarrow> char" where
  "digit_char d = char_of (48 + d)"

fun str_nat :: "nat \<Rightarrow> string" where
  "str_nat n = (if n < 10 then [digit_char n] else str_nat (n div 10) @ [digit_char (n mod 10)])"

declare str_nat.simps [simp del]

definition str_int :: "int \<Rightarrow> string" where
  "str_int i = (if i < 0 then CHR ''-'' # str_nat (nat (- i)) else str_nat (nat i))"

subsection \<open>\<open>int(s)\<close> on a string\<close>

text \<open>
  Strings are byte strings here, so the model covers ASCII input: surrounding ASCII
  whitespace is skipped, one sign is accepted, then decimal digits follow, where single
  underscores may stand between two digits. Everything else raises \<open>ValueError\<close>.
\<close>

definition py_isspace :: "char \<Rightarrow> bool" where
  "py_isspace c = (c \<in> set [CHR 0x09, CHR 0x0A, CHR 0x0B, CHR 0x0C, CHR 0x0D, CHR 0x20])"

definition py_isdigit :: "char \<Rightarrow> bool" where
  "py_isdigit c = (48 \<le> (of_char c :: nat) \<and> (of_char c :: nat) \<le> 57)"

definition digit_val :: "char \<Rightarrow> nat" where
  "digit_val c = of_char c - 48"

definition py_strip :: "string \<Rightarrow> string" where
  "py_strip s = rev (dropWhile py_isspace (rev (dropWhile py_isspace s)))"

fun int_digits :: "nat \<Rightarrow> string \<Rightarrow> nat option" where
  "int_digits acc [] = Some acc"
| "int_digits acc (c # cs) =
     (if py_isdigit c then int_digits (10 * acc + digit_val c) cs
      else if c = CHR ''_'' then
        (case cs of
           [] \<Rightarrow> None
         | d # ds \<Rightarrow> if py_isdigit d then int_digits (10 * acc + digit_val d) ds else None)
      else None)"

definition int_unsigned :: "string \<Rightarrow> nat option" where
  "int_unsigned u =
     (case u of
        [] \<Rightarrow> None
      | d # ds \<Rightarrow> if py_isdigit d then int_digits (digit_val d) ds else None)"

definition py_int :: "string \<Rightarrow> exn + int" where
  "py_int s =
     (let t = py_strip s in
      case t of
        [] \<Rightarrow> Inl ValueError
      | c # r \<Rightarrow>
          if c = CHR ''-'' then
            (case int_unsigned r of None \<Rightarrow> Inl ValueError | Some n \<Rightarrow> Inr (- int n))
          else if c = CHR ''+'' then
            (case int_unsigned r of None \<Rightarrow> Inl ValueError | Some n \<Rightarrow> Inr (int n))
          else
            (case int_unsigned t of None \<Rightarrow> Inl ValueError | Some n \<Rightarrow> Inr (int n)))"

subsection \<open>\<open>s.split(c)\<close> and list indexing\<close>

fun split_on :: "char \<Rightarrow> string \<Rightarrow> string list" where
  "split_on c [] = [[]]"
| "split_on c (x # xs) =
     (if x = c then [] # split_on c xs
      else (case split_on c xs of [] \<Rightarrow> [[x]] | w # ws \<Rightarrow> (x # w) # ws))"

text \<open>The subscript \<open>xs[i]\<close>. Positions \<open>0 .. len - 1\<close> read from the
  front, positions \<open>-len .. -1\<close> read from the back, and every other position
  raises \<open>IndexError\<close>.\<close>

definition py_getitem :: "'a list \<Rightarrow> int \<Rightarrow> exn + 'a" where
  "py_getitem xs i =
     (if 0 \<le> i \<and> i < int (length xs) then Inr (xs ! nat i)
      else if - int (length xs) \<le> i \<and> i < 0 then Inr (xs ! nat (int (length xs) + i))
      else Inl IndexError)"

text \<open>\<open>s.split(".")[0]\<close>, as both the finalize path and
  \<open>_domains_and_entities\<close> write it.\<close>

definition split0 :: "string \<Rightarrow> exn + string" where
  "split0 s = py_getitem (split_on CHR ''.'' s) 0"

section \<open>Threshold filters and their display strings\<close>

text \<open>
  The keys of \<open>homeassistant.const\<close> that the module imports.
\<close>

abbreviation CONF_ENTITY_ID :: string where "CONF_ENTITY_ID \<equiv> ''entity_id''"
abbreviation CONF_UNIT_OF_MEASUREMENT :: string where
  "CONF_UNIT_OF_MEASUREMENT \<equiv> ''unit_of_measurement''"
abbreviation CONF_ABOVE :: string where "CONF_ABOVE \<equiv> ''above''"
abbreviation CONF_BELOW :: string where "CONF_BELOW \<equiv> ''below''"

text \<open>
  A field of a filter is \<open>None\<close>, a string or a float. The float type is the
  parameter \<open>'f\<close>; \<open>fstr\<close> below is Python's \<open>str\<close> on it.
\<close>

datatype 'f scalar = SNone | SStr string | SFloat 'f

type_synonym 'f filter_dict = "string \<rightharpoonup> 'f scalar"

definition format_scalar :: "('f \<Rightarrow> string) \<Rightarrow> 'f scalar \<Rightarrow> string" where
  "format_scalar fstr v = (case v of SNone \<Rightarrow> ''None'' | SStr s \<Rightarrow> s | SFloat x \<Rightarrow> fstr x)"

definition dict_item :: "(string \<rightharpoonup> 'v) \<Rightarrow> string \<Rightarrow> exn + 'v" where
  "dict_item d k = (case d k of None \<Rightarrow> Inl KeyError | Some v \<Rightarrow> Inr v)"

definition filter_str :: "('f \<Rightarrow> string) \<Rightarrow> int \<Rightarrow> 'f filter_dict \<Rightarrow> exn + string" where
  "filter_str fstr index flt =
     bind_e (dict_item flt CONF_ENTITY_ID) (\<lambda>entity_id.
     bind_e (dict_item flt CONF_UNIT_OF_MEASUREMENT) (\<lambda>unit.
     bind_e (dict_item flt CONF_ABOVE) (\<lambda>above.
     bind_e (dict_item flt CONF_BELOW) (\<lambda>below.
       Inr (str_int (index + 1) @ ''. '' @ format_scalar fstr entity_id
            @ '', unit: '' @ format_scalar fstr unit
            @ '', above: '' @ format_scalar fstr above
            @ '', below: '' @ format_scalar fstr below)))))"

text \<open>The index expression of the finalize path:
  \<open>int(filter.split(".")[0]) - 1\<close>.\<close>

definition selected_index :: "string \<Rightarrow> exn + int" where
  "selected_index s =
     bind_e (split0 s) (\<lambda>head.
     bind_e (py_int head) (\<lambda>n. Inr (n - 1)))"

section \<open>The store: persisted options, option values and list objects\<close>

text \<open>
  Modelled from the spec: the key names of the repository's \<open>const.py\<close>, which
  is not among the sources; the spec names the option keys (entity\_prefix,
  include\_domains, include\_entities, exclude\_domains, exclude\_entities, filter,
  subscribe\_events).
\<close>

abbreviation CONF_FILTER :: string where "CONF_FILTER \<equiv> ''filter''"
abbreviation CONF_SUBSCRIBE_EVENTS :: string where
  "CONF_SUBSCRIBE_EVENTS \<equiv> ''subscribe_events''"
abbreviation CONF_ENTITY_PREFIX :: string where "CONF_ENTITY_PREFIX \<equiv> ''entity_prefix''"
abbreviation CONF_INCLUDE_DOMAINS :: string where
  "CONF_INCLUDE_DOMAINS \<equiv> ''include_domains''"
abbreviation CONF_INCLUDE_ENTITIES :: string where
  "CONF_INCLUDE_ENTITIES \<equiv> ''include_entities''"
abbreviation CONF_EXCLUDE_DOMAINS :: string where
  "CONF_EXCLUDE_DOMAINS \<equiv> ''exclude_domains''"
abbreviation CONF_EXCLUDE_ENTITIES :: string where
  "CONF_EXCLUDE_ENTITIES \<equiv> ''exclude_entities''"

abbreviation ADD_NEW_EVENT :: string where "ADD_NEW_EVENT \<equiv> ''add_new_event''"

text \<open>
  A list of filter dicts is a mutable object that the wizard and the entry's options
  can both hold, so it lives in a store and is named by its address. The other option
  values (a string, a list of strings, \<open>None\<close>) are never mutated after the
  module has obtained them and are plain values.
\<close>

type_synonym addr = nat

datatype optval = ONone | OStr string | OStrs "string list" | OFilters addr

text \<open>The result of \<open>x or vol.UNDEFINED\<close>: the value itself, or the schema
  library's "no default" marker.\<close>

datatype default_value = Default optval | UNDEFINED

type_synonym options_dict = "string \<rightharpoonup> optval"

text \<open>
  The state of one \<open>OptionsFlowHandler\<close> together with what it can reach:
  \<open>entry_options\<close> is \<open>self.config_entry.options\<close>;
  \<open>remote_entity_names\<close> is the \<open>_all_entity_names\<close> set of
  \<open>self.hass.data[DOMAIN][entry_id][CONF_REMOTE_CONNECTION]\<close>, \<open>None\<close> when
  that lookup has no such key; \<open>filters\<close>, \<open>events\<close> and \<open>options\<close>
  are the three instance fields, \<open>None\<close> as set by \<open>__init__\<close>;
  \<open>cells\<close> holds the list objects and \<open>next_addr\<close> is the next unused
  address (every address in use is below it).
\<close>

record 'f options_flow =
  entry_options :: options_dict
  remote_entity_names :: "string fset option"
  filters :: "addr option"
  events :: "string fset option"
  options :: "options_dict option"
  cells :: "addr \<Rightarrow> 'f filter_dict list"
  next_addr :: addr

text \<open>\<open>d.get(k, default)\<close> and \<open>d.get(k)\<close>.\<close>

definition dict_get_default :: "(string \<rightharpoonup> 'v) \<Rightarrow> string \<Rightarrow> 'v \<Rightarrow> 'v" where
  "dict_get_default d k dflt = (case d k of None \<Rightarrow> dflt | Some v \<Rightarrow> v)"

definition dict_get :: "options_dict \<Rightarrow> string \<Rightarrow> optval" where
  "dict_get d k = dict_get_default d k ONone"

text \<open>Truth value of an option value: \<open>None\<close>, the empty string and the empty
  list are false.\<close>

definition truthy :: "(addr \<Rightarrow> 'f filter_dict list) \<Rightarrow> optval \<Rightarrow> bool" where
  "truthy cs v =
     (case v of
        ONone \<Rightarrow> False
      | OStr s \<Rightarrow> s \<noteq> []
      | OStrs l \<Rightarrow> l \<noteq> []
      | OFilters a \<Rightarrow> cs a \<noteq> [])"

text \<open>\<open>set(v)\<close>: a string yields its one-character substrings, \<open>None\<close>
  is not iterable, a filter dict is not hashable.\<close>

definition py_set :: "(addr \<Rightarrow> 'f filter_dict list) \<Rightarrow> optval \<Rightarrow> exn + string fset" where
  "py_set cs v =
     (case v of
        ONone \<Rightarrow> Inl TypeError
      | OStr s \<Rightarrow> Inr (fset_of_list (map (\<lambda>c. [c]) s))
      | OStrs l \<Rightarrow> Inr (fset_of_list l)
      | OFilters a \<Rightarrow> if cs a = [] then Inr {||} else Inl TypeError)"

section \<open>The options wizard\<close>

text \<open>What a step hands back to the host: a form to render, or the finished entry
  data. A form carries the parts of its schema that the step computes.\<close>

datatype options_result =
    FormInit optval
  | FormDomainEntityFilters "string list" "string list"
      default_value default_value default_value default_value
  | FormGeneralFilters "string list" "string list"
  | FormEvents default_value "string fset"
  | CreateEntry string options_dict

text \<open>\<open>_default\<close>: \<open>self.config_entry.options.get(conf) or vol.UNDEFINED\<close>.\<close>

definition default_of :: "'f options_flow \<Rightarrow> string \<Rightarrow> default_value" where
  "default_of st conf =
     (let v = dict_get (entry_options st) conf
      in if truthy (cells st) v then Default v else UNDEFINED)"

text \<open>\<open>_domains_and_entities\<close>.\<close>

definition domains_and_entities :: "'f options_flow \<Rightarrow> exn + (string list \<times> string list)" where
  "domains_and_entities st =
     (case remote_entity_names st of
        None \<Rightarrow> Inl KeyError
      | Some remote \<Rightarrow>
          bind_e (py_set (cells st)
                    (dict_get_default (entry_options st) CONF_INCLUDE_ENTITIES (OStrs [])))
            (\<lambda>include_entities.
          bind_e (py_set (cells st)
                    (dict_get_default (entry_options st) CONF_EXCLUDE_ENTITIES (OStrs [])))
            (\<lambda>exclude_entities.
          let entities =
                sorted_list_of_fset (remote |\<union>| include_entities |\<union>| exclude_entities)
          in bind_e (comprehension split0 entities) (\<lambda>prefixes.
             Inr (sorted_list_of_fset (fset_of_list prefixes), entities)))))"

subsection \<open>Step 4: events\<close>

text \<open>The submission of the events form, with the field types of its schema.\<close>

record events_input =
  ev_subscribe_events :: "string list option"
  ev_add_new_event :: "string option"

text \<open>\<open>user_input.get(CONF_SUBSCRIBE_EVENTS, [])\<close>.\<close>

definition submitted_events :: "events_input \<Rightarrow> string list" where
  "submitted_events ui = (case ev_subscribe_events ui of None \<Rightarrow> [] | Some l \<Rightarrow> l)"

definition async_step_events ::
  "'f options_flow \<Rightarrow> events_input option \<Rightarrow> 'f options_flow \<times> (exn + options_result)" where
  "async_step_events st user_input =
     (case user_input of
        Some ui \<Rightarrow>
          (case ev_add_new_event ui of
             None \<Rightarrow>
               (case options st of
                  None \<Rightarrow> (st, Inl TypeError)
                | Some opts \<Rightarrow>
                    let opts' = opts(CONF_SUBSCRIBE_EVENTS \<mapsto> OStrs (submitted_events ui))
                    in (st\<lparr>options := Some opts'\<rparr>, Inr (CreateEntry [] opts')))
           | Some new_event \<Rightarrow>
               let selected = submitted_events ui
               in (case events st of
                     None \<Rightarrow> (st, Inl AttributeError)
                   | Some evs \<Rightarrow>
                       (st\<lparr>events := Some (finsert new_event evs)\<rparr>,
                        Inr (FormEvents (Default (OStrs (selected @ [new_event])))
                               (finsert new_event evs)))))
      | None \<Rightarrow>
          (let v = dict_get (entry_options st) CONF_SUBSCRIBE_EVENTS
           in case py_set (cells st) (if truthy (cells st) v then v else OStrs []) of
                Inl e \<Rightarrow> (st, Inl e)
              | Inr evs \<Rightarrow>
                  (st\<lparr>events := Some evs\<rparr>,
                   Inr (FormEvents (default_of st CONF_SUBSCRIBE_EVENTS) evs))))"

subsection \<open>Step 3: general\_filters\<close>

record 'f general_filters_input =
  gf_filter :: "string list option"
  gf_entity_id :: "string option"
  gf_unit_of_measurement :: "string option"
  gf_above :: "'f option"
  gf_below :: "'f option"

text \<open>\<open>{conf: user_input.get(conf) for conf in FILTER_OPTIONS}\<close>: all four keys
  are set, an absent field to \<open>None\<close>.\<close>

definition new_filter_of :: "'f general_filters_input \<Rightarrow> 'f filter_dict" where
  "new_filter_of ui =
     [CONF_ENTITY_ID \<mapsto> (case gf_entity_id ui of None \<Rightarrow> SNone | Some s \<Rightarrow> SStr s),
      CONF_UNIT_OF_MEASUREMENT \<mapsto>
        (case gf_unit_of_measurement ui of None \<Rightarrow> SNone | Some s \<Rightarrow> SStr s),
      CONF_ABOVE \<mapsto> (case gf_above ui of None \<Rightarrow> SNone | Some x \<Rightarrow> SFloat x),
      CONF_BELOW \<mapsto> (case gf_below ui of None \<Rightarrow> SNone | Some x \<Rightarrow> SFloat x)]"

text \<open>\<open>user_input.get(CONF_FILTER, [])\<close>.\<close>

definition submitted_filters :: "'f general_filters_input \<Rightarrow> string list" where
  "submitted_filters ui = (case gf_filter ui of None \<Rightarrow> [] | Some l \<Rightarrow> l)"

text \<open>\<open>[_filter_str(i, filter) for i, filter in enumerate(self.filters)]\<close>.\<close>

definition filter_strings :: "('f \<Rightarrow> string) \<Rightarrow> 'f filter_dict list \<Rightarrow> exn + string list" where
  "filter_strings fstr fs =
     comprehension (\<lambda>(i, flt). filter_str fstr (int i) flt) (enumerate 0 fs)"

text \<open>The two comprehensions of the finalize path. With \<open>self.filters\<close> still
  \<open>None\<close>, subscripting raises only when there is an index to look up.\<close>

definition selected_filters ::
  "'f options_flow \<Rightarrow> string list \<Rightarrow> exn + 'f filter_dict list" where
  "selected_filters st selection =
     bind_e (comprehension selected_index selection) (\<lambda>selected_indices.
       case filters st of
         None \<Rightarrow> if selected_indices = [] then Inr [] else Inl TypeError
       | Some a \<Rightarrow> comprehension (py_getitem (cells st a)) selected_indices)"

text \<open>The tail shared by the add path and the first entry: compute the choice
  strings and show the form.\<close>

definition show_general_filters ::
  "('f \<Rightarrow> string) \<Rightarrow> 'f options_flow \<Rightarrow> string list \<Rightarrow> 'f options_flow \<times> (exn + options_result)" where
  "show_general_filters fstr st selected =
     (case filters st of
        None \<Rightarrow> (st, Inl TypeError)
      | Some a \<Rightarrow>
          (case filter_strings fstr (cells st a) of
             Inl e \<Rightarrow> (st, Inl e)
           | Inr strings \<Rightarrow> (st, Inr (FormGeneralFilters selected strings))))"

text \<open>
  On the first entry \<open>self.filters\<close> becomes the very list object stored under
  \<open>CONF_FILTER\<close> in the entry's options, or a new empty list when the key is absent.
  A stored value that is not a list of filter dicts lies outside the options schema; it
  is answered with \<open>TypeError\<close>, which is what Python raises for \<open>None\<close> and for
  every non-empty string or list of strings.
\<close>

definition async_step_general_filters ::
  "('f \<Rightarrow> string) \<Rightarrow> 'f options_flow \<Rightarrow> 'f general_filters_input option
   \<Rightarrow> 'f options_flow \<times> (exn + options_result)" where
  "async_step_general_filters fstr st user_input =
     (case user_input of
        Some ui \<Rightarrow>
          (case gf_entity_id ui of
             None \<Rightarrow>
               (case selected_filters st (submitted_filters ui) of
                  Inl e \<Rightarrow> (st, Inl e)
                | Inr chosen \<Rightarrow>
                    (case options st of
                       None \<Rightarrow> (st, Inl TypeError)
                     | Some opts \<Rightarrow>
                         async_step_events
                           (st\<lparr>cells := (cells st)(next_addr st := chosen),
                               next_addr := Suc (next_addr st),
                               options := Some (opts(CONF_FILTER \<mapsto> OFilters (next_addr st)))\<rparr>)
                           None))
           | Some _ \<Rightarrow>
               let selected = submitted_filters ui;
                   new_filter = new_filter_of ui
               in (case filters st of
                     None \<Rightarrow> (st, Inl TypeError)
                   | Some a \<Rightarrow>
                       (case filter_str fstr (int (length (cells st a))) new_filter of
                          Inl e \<Rightarrow> (st, Inl e)
                        | Inr s \<Rightarrow>
                            show_general_filters fstr
                              (st\<lparr>cells := (cells st)(a := cells st a @ [new_filter])\<rparr>)
                              (selected @ [s]))))
      | None \<Rightarrow>
          (case entry_options st CONF_FILTER of
             None \<Rightarrow>
               (let st' = st\<lparr>cells := (cells st)(next_addr st := []),
                              next_addr := Suc (next_addr st),
                              filters := Some (next_addr st)\<rparr>
                in case filter_strings fstr (cells st' (next_addr st)) of
                     Inl e \<Rightarrow> (st', Inl e)
                   | Inr selected \<Rightarrow> show_general_filters fstr st' selected)
           | Some (OFilters a) \<Rightarrow>
               (let st' = st\<lparr>filters := Some a\<rparr>
                in case filter_strings fstr (cells st' a) of
                     Inl e \<Rightarrow> (st', Inl e)
                   | Inr selected \<Rightarrow> show_general_filters fstr st' selected)
           | Some _ \<Rightarrow> (st, Inl TypeError)))"

subsection \<open>Steps 2 and 1: domain\_entity\_filters and init\<close>

text \<open>The submissions of these two steps are mappings that the module copies into
  the draft without reading them.\<close>

definition async_step_domain_entity_filters ::
  "('f \<Rightarrow> string) \<Rightarrow> 'f options_flow \<Rightarrow> options_dict option
   \<Rightarrow> 'f options_flow \<times> (exn + options_result)" where
  "async_step_domain_entity_filters fstr st user_input =
     (case user_input of
        Some ui \<Rightarrow>
          (case options st of
             None \<Rightarrow> (st, Inl AttributeError)
           | Some opts \<Rightarrow>
               async_step_general_filters fstr (st\<lparr>options := Some (opts ++ ui)\<rparr>) None)
      | None \<Rightarrow>
          (case domains_and_entities st of
             Inl e \<Rightarrow> (st, Inl e)
           | Inr (domains, entities) \<Rightarrow>
               (st, Inr (FormDomainEntityFilters domains entities
                           (default_of st CONF_INCLUDE_DOMAINS)
                           (default_of st CONF_INCLUDE_ENTITIES)
                           (default_of st CONF_EXCLUDE_DOMAINS)
                           (default_of st CONF_EXCLUDE_ENTITIES)))))"

definition async_step_init ::
  "('f \<Rightarrow> string) \<Rightarrow> 'f options_flow \<Rightarrow> options_dict option
   \<Rightarrow> 'f options_flow \<times> (exn + options_result)" where
  "async_step_init fstr st user_input =
     (case user_input of
        Some ui \<Rightarrow> async_step_domain_entity_filters fstr (st\<lparr>options := Some ui\<rparr>) None
      | None \<Rightarrow> (st, Inr (FormInit (dict_get (entry_options st) CONF_ENTITY_PREFIX))))"

section \<open>The connection setup flow\<close>

text \<open>The submission of the \<open>user\<close> form: \<open>DATA_SCHEMA\<close> makes all five
  fields present.\<close>

record connection_config =
  host :: string
  port :: int
  access_token :: string
  secure :: bool
  verify_ssl :: bool

text \<open>
  \<open>async_get_discovery_info\<close> belongs to \<open>rest_api.py\<close> and talks to the
  network; the model takes it as a parameter. A call returns the remote's info mapping
  or raises.
\<close>

datatype discovery_outcome = Returns "string \<rightharpoonup> string" | Raises exn

type_synonym discovery = "string \<Rightarrow> int \<Rightarrow> bool \<Rightarrow> string \<Rightarrow> bool \<Rightarrow> discovery_outcome"

record validated =
  title :: string
  uuid :: string

definition validate_input :: "discovery \<Rightarrow> connection_config \<Rightarrow> exn + validated" where
  "validate_input discover conf =
     (case discover (host conf) (port conf) (secure conf) (access_token conf) (verify_ssl conf) of
        Raises e \<Rightarrow> if e = OSError then Inl CannotConnect else Inl e
      | Returns info \<Rightarrow>
          bind_e (dict_item info ''location_name'') (\<lambda>location_name.
          bind_e (dict_item info ''uuid'') (\<lambda>u.
            Inr \<lparr>title = location_name, uuid = u\<rparr>)))"

text \<open>An entry of the host's registry, and the state of one setup flow: the unique id
  it has been given.\<close>

record config_entry =
  entry_unique_id :: "string option"
  entry_title :: string
  entry_data :: connection_config

record config_flow =
  unique_id :: "string option"

datatype config_result =
    FormUser "string \<rightharpoonup> string"
  | CreateConfigEntry string connection_config
  | AbortFlow string

text \<open>
  Modelled from the spec: the host platform's unique-id services, which are outside the
  repository. \<open>async_set_unique_id\<close> gives the flow its unique id;
  \<open>_abort_if_unique_id_configured\<close> aborts the flow when an entry with the flow's
  unique id is already registered; on a create-entry result the host registers an entry
  that carries the flow's unique id, the title and the data.
\<close>

definition async_set_unique_id :: "config_flow \<Rightarrow> string \<Rightarrow> config_flow" where
  "async_set_unique_id flow u = flow\<lparr>unique_id := Some u\<rparr>"

definition abort_if_unique_id_configured :: "config_entry list \<Rightarrow> config_flow \<Rightarrow> string option" where
  "abort_if_unique_id_configured entries flow =
     (case unique_id flow of
        None \<Rightarrow> None
      | Some u \<Rightarrow>
          if list_ex (\<lambda>e. entry_unique_id e = Some u) entries
          then Some ''already_configured'' else None)"

definition host_finish :: "config_entry list \<Rightarrow> config_flow \<times> config_result \<Rightarrow> config_entry list" where
  "host_finish entries r =
     (case snd r of
        CreateConfigEntry t d \<Rightarrow>
          entries @ [\<lparr>entry_unique_id = unique_id (fst r), entry_title = t, entry_data = d\<rparr>]
      | _ \<Rightarrow> entries)"

text \<open>\<open>ConfigFlow.async_step_user\<close>. The handlers are tried in the order of the
  source; the abort raised in the \<open>else\<close> branch reaches the host as an abort
  result.\<close>

definition async_step_user ::
  "discovery \<Rightarrow> config_entry list \<Rightarrow> config_flow \<Rightarrow> connection_config option
   \<Rightarrow> config_flow \<times> config_result" where
  "async_step_user discover entries flow user_input =
     (case user_input of
        None \<Rightarrow> (flow, FormUser Map.empty)
      | Some ui \<Rightarrow>
          (case validate_input discover ui of
             Inl e \<Rightarrow>
               (flow, FormUser [''base'' \<mapsto>
                  (if e = ApiProblem then ''api_problem''
                   else if e = CannotConnect then ''cannot_connect''
                   else if e = InvalidAuth then ''invalid_auth''
                   else ''unknown'')])
           | Inr info \<Rightarrow>
               (let flow' = async_set_unique_id flow (uuid info)
                in case abort_if_unique_id_configured entries flow' of
                     Some reason \<Rightarrow> (flow', AbortFlow reason)
                   | None \<Rightarrow> (flow', CreateConfigEntry (title info) ui))))"

section \<open>What the claims observe\<close>

text \<open>The filter list and the subscribed-events list held by the options draft, and
  the filter list that the entry's options hold, each read through the store.\<close>

definition draft_filters :: "'f options_flow \<Rightarrow> 'f filter_dict list option" where
  "draft_filters st =
     (case options st of
        None \<Rightarrow> None
      | Some opts \<Rightarrow>
          (case opts CONF_FILTER of Some (OFilters a) \<Rightarrow> Some (cells st a) | _ \<Rightarrow> None))"

definition draft_events :: "'f options_flow \<Rightarrow> string list option" where
  "draft_events st =
     (case options st of
        None \<Rightarrow> None
      | Some opts \<Rightarrow>
          (case opts CONF_SUBSCRIBE_EVENTS of Some (OStrs l) \<Rightarrow> Some l | _ \<Rightarrow> None))"

text \<open>The wizard's filter list; there is none before the step was first entered.\<close>

definition current_filters :: "'f options_flow \<Rightarrow> 'f filter_dict list" where
  "current_filters st = (case filters st of None \<Rightarrow> [] | Some a \<Rightarrow> cells st a)"

definition persisted_filters :: "'f options_flow \<Rightarrow> 'f filter_dict list option" where
  "persisted_filters st =
     (case entry_options st CONF_FILTER of Some (OFilters a) \<Rightarrow> Some (cells st a) | _ \<Rightarrow> None)"

text \<open>The list stored under an entity key of the entry's options, when the key is
  absent or holds a list of strings.\<close>

definition stored_entities :: "'f options_flow \<Rightarrow> string \<Rightarrow> string list option" where
  "stored_entities st k =
     (case entry_options st k of
        None \<Rightarrow> Some []
      | Some (OStrs l) \<Rightarrow> Some l
      | Some _ \<Rightarrow> None)"

section \<open>Example data\<close>

text \<open>In the examples a float is given by the text that \<open>str\<close> prints for it.\<close>

definition ex_fstr :: "string \<Rightarrow> string" where
  "ex_fstr x = x"

definition ex_filter_a :: "string filter_dict" where
  "ex_filter_a =
     [CONF_ENTITY_ID \<mapsto> SStr ''sensor.a'', CONF_UNIT_OF_MEASUREMENT \<mapsto> SStr ''W'',
      CONF_ABOVE \<mapsto> SFloat ''10.0'', CONF_BELOW \<mapsto> SNone]"

definition ex_filter_b :: "string filter_dict" where
  "ex_filter_b =
     [CONF_ENTITY_ID \<mapsto> SStr ''sensor.temp_1.2'', CONF_UNIT_OF_MEASUREMENT \<mapsto> SNone,
      CONF_ABOVE \<mapsto> SNone, CONF_BELOW \<mapsto> SFloat ''30.5'']"

definition ex_filter_c :: "string filter_dict" where
  "ex_filter_c =
     [CONF_ENTITY_ID \<mapsto> SStr ''sensor.c'', CONF_UNIT_OF_MEASUREMENT \<mapsto> SNone,
      CONF_ABOVE \<mapsto> SNone, CONF_BELOW \<mapsto> SNone]"

text \<open>
  A handler for an entry whose options hold three filters, one stale include entity and
  one subscribed event; the submissions of the first two steps; and the state after
  them (\<open>ex_reach_filters\<close> below shows that the two steps lead there). The three
  strings are the display strings of the three filters.
\<close>

definition ex_entry :: "string options_flow" where
  "ex_entry =
     \<lparr>entry_options =
        [CONF_FILTER \<mapsto> OFilters 0,
         CONF_INCLUDE_ENTITIES \<mapsto> OStrs [''sensor.gone''],
         CONF_SUBSCRIBE_EVENTS \<mapsto> OStrs [''state_changed'']],
      remote_entity_names = Some (fset_of_list [''sensor.a'', ''light.b'']),
      filters = None, events = None, options = None,
      cells = (\<lambda>_. [])(0 := [ex_filter_a, ex_filter_b, ex_filter_c]),
      next_addr = 1\<rparr>"

definition ex_init_input :: options_dict where
  "ex_init_input = [CONF_ENTITY_PREFIX \<mapsto> OStr ''ha_'']"

definition ex_domain_input :: options_dict where
  "ex_domain_input = [CONF_INCLUDE_DOMAINS \<mapsto> OStrs [''sensor'']]"

definition ex_at_filters :: "string options_flow" where
  "ex_at_filters =
     ex_entry\<lparr>filters := Some 0,
              options := Some [CONF_ENTITY_PREFIX \<mapsto> OStr ''ha_'',
                               CONF_INCLUDE_DOMAINS \<mapsto> OStrs [''sensor'']]\<rparr>"

definition ex_str_a :: string where
  "ex_str_a = ''1. sensor.a, unit: W, above: 10.0, below: None''"
definition ex_str_b :: string where
  "ex_str_b = ''2. sensor.temp_1.2, unit: None, above: None, below: 30.5''"
definition ex_str_c :: string where
  "ex_str_c = ''3. sensor.c, unit: None, above: None, below: None''"

definition ex_add :: "string general_filters_input" where
  "ex_add =
     \<lparr>gf_filter = Some [ex_str_a, ex_str_b, ex_str_c],
      gf_entity_id = Some ''sensor.new'',
      gf_unit_of_measurement = Some ''C'',
      gf_above = Some ''1.5'',
      gf_below = None\<rparr>"

definition ex_add_full :: "string general_filters_input" where
  "ex_add_full =
     \<lparr>gf_filter = Some [ex_str_a, ex_str_b, ex_str_c],
      gf_entity_id = Some ''sensor.new'',
      gf_unit_of_measurement = Some ''C'',
      gf_above = Some ''1.5'',
      gf_below = Some ''9.5''\<rparr>"

definition ex_str_full :: string where
  "ex_str_full = ''4. sensor.new, unit: C, above: 1.5, below: 9.5''"

definition ex_str_new :: string where
  "ex_str_new = ''4. sensor.new, unit: C, above: 1.5, below: None''"

definition ex_finalize_bc :: "string general_filters_input" where
  "ex_finalize_bc =
     \<lparr>gf_filter = Some [ex_str_b, ex_str_c], gf_entity_id = None,
      gf_unit_of_measurement = None, gf_above = None, gf_below = None\<rparr>"

definition ex_finalize_cb :: "string general_filters_input" where
  "ex_finalize_cb =
     \<lparr>gf_filter = Some [ex_str_c, ex_str_b], gf_entity_id = None,
      gf_unit_of_measurement = None, gf_above = None, gf_below = None\<rparr>"

text \<open>
  The state at the events step of the example run (\<open>ex_reach_events\<close> below), three
  submissions of the events form, an entry with an empty stored list, and the data of two
  setup attempts against the same remote.
\<close>

definition ex_at_events :: "string options_flow" where
  "ex_at_events =
     ex_at_filters\<lparr>events := Some {|''state_changed''|},
                   options := Some [CONF_ENTITY_PREFIX \<mapsto> OStr ''ha_'',
                                    CONF_INCLUDE_DOMAINS \<mapsto> OStrs [''sensor''],
                                    CONF_FILTER \<mapsto> OFilters 1],
                   cells := (cells ex_at_filters)(1 := [ex_filter_b, ex_filter_c]),
                   next_addr := 2\<rparr>"

definition ex_add_event_1 :: events_input where
  "ex_add_event_1 = \<lparr>ev_subscribe_events = Some [''state_changed''], ev_add_new_event = Some ''x''\<rparr>"

definition ex_add_event_2 :: events_input where
  "ex_add_event_2 =
     \<lparr>ev_subscribe_events = Some [''state_changed'', ''x''], ev_add_new_event = Some ''x''\<rparr>"

definition ex_events_finalize :: events_input where
  "ex_events_finalize =
     \<lparr>ev_subscribe_events = Some [''state_changed'', ''x'', ''x''], ev_add_new_event = None\<rparr>"

definition ex_entry_empty_list :: "string options_flow" where
  "ex_entry_empty_list =
     ex_entry\<lparr>entry_options := (entry_options ex_entry)(CONF_INCLUDE_DOMAINS \<mapsto> OStrs [])\<rparr>"

definition ex_conn :: connection_config where
  "ex_conn = \<lparr>host = ''cabin.local'', port = 8123, access_token = ''token'', secure = True,
              verify_ssl = True\<rparr>"

definition ex_conn2 :: connection_config where
  "ex_conn2 = \<lparr>host = ''10.0.0.7'', port = 8123, access_token = ''token'', secure = False,
               verify_ssl = False\<rparr>"

definition ex_discover :: "discovery_outcome \<Rightarrow> discovery" where
  "ex_discover r = (\<lambda>h p s t v. r)"

definition ex_info :: "string \<rightharpoonup> string" where
  "ex_info = [''uuid'' \<mapsto> ''0123abcd'', ''location_name'' \<mapsto> ''Cabin'']"

definition ex_info2 :: "string \<rightharpoonup> string" where
  "ex_info2 = [''uuid'' \<mapsto> ''0123abcd'', ''location_name'' \<mapsto> ''Cabin again'']"

definition ex_flow :: config_flow where
  "ex_flow = \<lparr>unique_id = None\<rparr>"

section \<open>Properties of the built-ins\<close>

lemma digit_val_digit_char: "d < 10 \<Longrightarrow> digit_val (digit_char d) = d"
  by (simp add: digit_val_def digit_char_def)

lemma py_isdigit_digit_char: "d < 10 \<Longrightarrow> py_isdigit (digit_char d)"
  by (simp add: py_isdigit_def digit_char_def)

lemma str_nat_digits: "c \<in> set (str_nat n) \<Longrightarrow> py_isdigit c"
proof (induction n arbitrary: c rule: str_nat.induct)
  case (1 n)
  show ?case
  proof (cases "n < 10")
    case True
    with "1.prems" show ?thesis
      by (simp add: str_nat.simps [of n] py_isdigit_digit_char)
  next
    case False
    with "1.prems" "1.IH" show ?thesis
      by (auto simp add: str_nat.simps [of n] py_isdigit_digit_char)
  qed
qed

lemma str_nat_nonempty: "str_nat n \<noteq> []"
  by (subst str_nat.simps) simp

lemma int_digits_all:
  "\<forall>c\<in>set ds. py_isdigit c \<Longrightarrow>
   int_digits acc ds = Some (foldl (\<lambda>a c. 10 * a + digit_val c) acc ds)"
  by (induction ds arbitrary: acc) auto

lemma foldl_str_nat:
  "foldl (\<lambda>a c. 10 * a + digit_val c) acc (str_nat n) = acc * 10 ^ length (str_nat n) + n"
proof (induction n arbitrary: acc rule: str_nat.induct)
  case (1 n)
  show ?case
  proof (cases "n < 10")
    case True
    then show ?thesis
      by (simp add: str_nat.simps [of n] digit_val_digit_char)
  next
    case False
    then have "foldl (\<lambda>a c. 10 * a + digit_val c) acc (str_nat n)
        = 10 * (acc * 10 ^ length (str_nat (n div 10)) + n div 10) + n mod 10"
      using "1.IH" [of acc] by (simp add: str_nat.simps [of n] digit_val_digit_char)
    also have "\<dots> = acc * 10 ^ length (str_nat n) + n"
      using False by (simp add: str_nat.simps [of n] algebra_simps)
    finally show ?thesis .
  qed
qed

lemma int_unsigned_str_nat: "int_unsigned (str_nat n) = Some n"
proof (cases "str_nat n")
  case Nil
  then show ?thesis by (simp add: str_nat_nonempty)
next
  case (Cons d ds)
  have dig: "\<forall>c\<in>set (d # ds). py_isdigit c"
    using str_nat_digits [of _ n] Cons by auto
  have "int_digits (digit_val d) ds = Some (foldl (\<lambda>a c. 10 * a + digit_val c) 0 (d # ds))"
    using int_digits_all [of ds "digit_val d"] dig by simp
  also have "\<dots> = Some n"
    using foldl_str_nat [of 0 n] Cons by simp
  finally show ?thesis
    using dig Cons by (simp add: int_unsigned_def)
qed

lemma py_isdigit_not_space: "py_isdigit c \<Longrightarrow> \<not> py_isspace c"
  by (auto simp add: py_isdigit_def py_isspace_def)

lemma py_isdigit_not_special:
  "py_isdigit c \<Longrightarrow> c \<noteq> CHR ''-'' \<and> c \<noteq> CHR ''+'' \<and> c \<noteq> CHR ''.'' \<and> c \<noteq> CHR ''_''"
  by (auto simp add: py_isdigit_def)

lemma py_strip_id:
  "s \<noteq> [] \<Longrightarrow> \<not> py_isspace (hd s) \<Longrightarrow> \<not> py_isspace (last s) \<Longrightarrow> py_strip s = s"
proof -
  assume ne: "s \<noteq> []" and h: "\<not> py_isspace (hd s)" and l: "\<not> py_isspace (last s)"
  from ne h have "dropWhile py_isspace s = s"
    by (cases s) simp_all
  moreover from ne l have "dropWhile py_isspace (rev s) = rev s"
    by (cases "rev s") (simp_all add: hd_rev [symmetric])
  ultimately show ?thesis by (simp add: py_strip_def)
qed

lemma py_strip_str_nat: "py_strip (pre @ str_nat n) = pre @ str_nat n"
  if "pre = [] \<or> \<not> py_isspace (hd pre)"
proof -
  have l: "\<not> py_isspace (last (pre @ str_nat n))"
    using str_nat_nonempty [of n] str_nat_digits [of "last (str_nat n)" n]
    by (simp add: py_isdigit_not_space)
  have h: "\<not> py_isspace (hd (pre @ str_nat n))"
    using that str_nat_nonempty [of n] str_nat_digits [of "hd (str_nat n)" n]
    by (cases pre) (auto simp add: py_isdigit_not_space)
  show ?thesis using l h str_nat_nonempty by (intro py_strip_id) simp_all
qed

lemma py_int_str_int: "py_int (str_int i) = Inr i"
proof (cases "i < 0")
  case True
  have "py_strip (CHR ''-'' # str_nat (nat (- i))) = CHR ''-'' # str_nat (nat (- i))"
    using py_strip_str_nat [of "[CHR ''-'']" "nat (- i)"] by (simp add: py_isspace_def)
  with True show ?thesis
    by (simp add: py_int_def str_int_def int_unsigned_str_nat)
next
  case False
  obtain d ds where ds: "str_nat (nat i) = d # ds"
    using str_nat_nonempty [of "nat i"] by (cases "str_nat (nat i)") auto
  then have "py_isdigit d" using str_nat_digits [of d "nat i"] by simp
  then have nd: "d \<noteq> CHR ''-''" "d \<noteq> CHR ''+''" using py_isdigit_not_special by auto
  have "py_strip (str_nat (nat i)) = str_nat (nat i)"
    using py_strip_str_nat [of "[]" "nat i"] by simp
  with False nd ds int_unsigned_str_nat [of "nat i"] show ?thesis
    by (simp add: py_int_def str_int_def)
qed

lemma split_on_nonempty: "split_on c s \<noteq> []"
  by (induction s) (auto split: list.splits)

lemma split_on_head: "c \<notin> set p \<Longrightarrow> split_on c (p @ c # r) = p # split_on c r"
  by (induction p) (auto split: list.splits)

lemma str_int_no_dot: "CHR ''.'' \<notin> set (str_int i)"
  using str_nat_digits py_isdigit_not_special by (auto simp add: str_int_def)

lemma selected_index_display: "selected_index (str_int (i + 1) @ ''. '' @ rest) = Inr i"
  by (simp add: selected_index_def split0_def split_on_head str_int_no_dot py_getitem_def
      bind_e_def py_int_str_int)

section \<open>The display index\<close>

lemma filter_str_shape:
  "filter_str fstr i flt = Inr s \<Longrightarrow> \<exists>rest. s = str_int (i + 1) @ ''. '' @ rest"
  by (auto simp add: filter_str_def bind_e_def dict_item_def split: option.splits)

text \<open>
  C9. For every filter list and every position \<open>i\<close> in it, the display string that
  \<open>_filter_str\<close> generates for the filter at position \<open>i\<close> parses back to
  \<open>i\<close>: the text before the first dot, read by \<open>int\<close>, minus one. Nothing is
  assumed about the fields, so entity ids with dots and digits are covered.
\<close>

theorem display_index_round_trip:
  "i < length fs \<Longrightarrow> filter_str fstr (int i) (fs ! i) = Inr s \<Longrightarrow> selected_index s = Inr (int i)"
  using filter_str_shape [of fstr "int i" "fs ! i" s] selected_index_display [of "int i"]
  by auto

theorem display_index_round_trip_witness:
  "(1::nat) < length [ex_filter_a, ex_filter_b]
   \<and> filter_str ex_fstr (int 1) ([ex_filter_a, ex_filter_b] ! 1)
       = Inr ''2. sensor.temp_1.2, unit: None, above: None, below: 30.5''
   \<and> selected_index ''2. sensor.temp_1.2, unit: None, above: None, below: 30.5'' = Inr (int 1)"
proof -
  have r: "filter_str ex_fstr (int 1) ([ex_filter_a, ex_filter_b] ! 1)
       = Inr ''2. sensor.temp_1.2, unit: None, above: None, below: 30.5''"
    by code_simp
  show ?thesis
    using display_index_round_trip [of 1 "[ex_filter_a, ex_filter_b]" ex_fstr, OF _ r] r by simp
qed

section \<open>The general\_filters step\<close>

subsection \<open>Comprehensions and display strings\<close>

lemma comprehension_map:
  "(\<And>x. x \<in> set xs \<Longrightarrow> f x = Inr (g x)) \<Longrightarrow> comprehension f xs = Inr (map g xs)"
  by (induction xs) simp_all

lemma comprehension_snoc:
  "comprehension f xs = Inr ys \<Longrightarrow> f x = Inr y \<Longrightarrow> comprehension f (xs @ [x]) = Inr (ys @ [y])"
  by (induction xs arbitrary: ys) (auto split: sum.splits)

lemma filter_strings_snoc:
  "filter_strings fstr fs = Inr strs \<Longrightarrow> filter_str fstr (int (length fs)) flt = Inr s \<Longrightarrow>
   filter_strings fstr (fs @ [flt]) = Inr (strs @ [s])"
  by (simp add: filter_strings_def enumerate_append_eq comprehension_snoc)

lemma new_filter_renders:
  "\<exists>s. filter_str fstr i (new_filter_of ui) = Inr s"
  by (simp add: filter_str_def new_filter_of_def dict_item_def bind_e_def)

lemma add_filter_step:
  assumes "filters st = Some a"
    and "filter_strings fstr (cells st a) = Inr strings"
    and "gf_entity_id ui = Some e"
    and "filter_str fstr (int (length (cells st a))) (new_filter_of ui) = Inr s"
  shows "async_step_general_filters fstr st (Some ui)
          = (st\<lparr>cells := (cells st)(a := cells st a @ [new_filter_of ui])\<rparr>,
             Inr (FormGeneralFilters (submitted_filters ui @ [s]) (strings @ [s])))"
  using assms(1,3,4) filter_strings_snoc [OF assms(2,4)]
  by (simp add: async_step_general_filters_def show_general_filters_def)

lemma selected_index_filter_str:
  "filter_str fstr i flt = Inr s \<Longrightarrow> selected_index s = Inr i"
  using filter_str_shape [of fstr i flt s] selected_index_display [of i] by auto

lemma events_first_entry_frame:
  "options (fst (async_step_events st None)) = options st"
  "cells (fst (async_step_events st None)) = cells st"
  "entry_options (fst (async_step_events st None)) = entry_options st"
  "filters (fst (async_step_events st None)) = filters st"
  by (simp_all add: async_step_events_def Let_def split: sum.splits)

lemma finalize_state:
  assumes "selected_filters st (submitted_filters ui) = Inr chosen"
    and "options st = Some opts"
    and "gf_entity_id ui = None"
  shows "async_step_general_filters fstr st (Some ui)
         = async_step_events
             (st\<lparr>cells := (cells st)(next_addr st := chosen),
                 next_addr := Suc (next_addr st),
                 options := Some (opts(CONF_FILTER \<mapsto> OFilters (next_addr st)))\<rparr>)
             None"
  using assms by (simp add: async_step_general_filters_def submitted_filters_def)

lemma finalize_draft:
  assumes "selected_filters st (submitted_filters ui) = Inr chosen"
    and "options st = Some opts"
    and "gf_entity_id ui = None"
  shows "draft_filters (fst (async_step_general_filters fstr st (Some ui))) = Some chosen"
  by (simp add: finalize_state [OF assms] draft_filters_def events_first_entry_frame)

lemma selected_indices_in_range:
  "\<forall>s\<in>set sel. \<exists>i<n. selected_index s = Inr (int i) \<Longrightarrow>
   \<exists>idx. comprehension selected_index sel = Inr idx \<and> (\<forall>i\<in>set idx. 0 \<le> i \<and> i < int n)"
proof (induction sel)
  case Nil
  then show ?case by simp
next
  case (Cons s sel)
  then obtain idx where idx: "comprehension selected_index sel = Inr idx"
    and rng: "\<forall>i\<in>set idx. 0 \<le> i \<and> i < int n"
    by auto
  from Cons.prems obtain i where "i < n" "selected_index s = Inr (int i)"
    by auto
  with idx rng show ?case by auto
qed

lemma getitem_in_range:
  "\<forall>i\<in>set idx. 0 \<le> i \<and> i < int (length fs) \<Longrightarrow>
   comprehension (py_getitem fs) idx = Inr (map (\<lambda>i. fs ! nat i) idx)"
  by (rule comprehension_map) (simp add: py_getitem_def)

lemma selected_filters_current:
  assumes idx: "comprehension selected_index sel = Inr idx"
    and rng: "\<forall>i\<in>set idx. 0 \<le> i \<and> i < int (length (current_filters st))"
  shows "selected_filters st sel = Inr (map (\<lambda>i. current_filters st ! nat i) idx)"
proof (cases "filters st")
  case None
  with rng have "idx = []" by (cases idx) (auto simp add: current_filters_def)
  with idx None show ?thesis by (simp add: selected_filters_def bind_e_def)
next
  case (Some a)
  with rng have "\<forall>i\<in>set idx. 0 \<le> i \<and> i < int (length (cells st a))"
    by (simp add: current_filters_def)
  from getitem_in_range [OF this] idx Some show ?thesis
    by (simp add: selected_filters_def bind_e_def current_filters_def)
qed

subsection \<open>The example run\<close>

lemma ex_strings:
  "filter_str ex_fstr 0 ex_filter_a = Inr ex_str_a"
  "filter_str ex_fstr 1 ex_filter_b = Inr ex_str_b"
  "filter_str ex_fstr 2 ex_filter_c = Inr ex_str_c"
  by code_simp+

lemma ex_filter_strings:
  "filter_strings ex_fstr [ex_filter_a, ex_filter_b, ex_filter_c] = Inr [ex_str_a, ex_str_b, ex_str_c]"
  by (simp add: filter_strings_def ex_strings)

lemma domain_first_entry_frame: "fst (async_step_domain_entity_filters fstr st None) = st"
  by (simp add: async_step_domain_entity_filters_def split: sum.splits prod.splits)

lemma init_submit_state: "fst (async_step_init fstr st (Some ui)) = st\<lparr>options := Some ui\<rparr>"
  by (simp add: async_step_init_def domain_first_entry_frame)

lemma ex_reach_filters:
  "async_step_domain_entity_filters ex_fstr
     (fst (async_step_init ex_fstr ex_entry (Some ex_init_input))) (Some ex_domain_input)
   = (ex_at_filters, Inr (FormGeneralFilters [ex_str_a, ex_str_b, ex_str_c] [ex_str_a, ex_str_b, ex_str_c]))"
  by (simp add: init_submit_state async_step_domain_entity_filters_def
      async_step_general_filters_def show_general_filters_def ex_entry_def ex_at_filters_def
      ex_init_input_def ex_domain_input_def ex_filter_strings map_add_def fun_eq_iff)

lemma ex_at_filters_simps:
  "filters ex_at_filters = Some 0"
  "cells ex_at_filters 0 = [ex_filter_a, ex_filter_b, ex_filter_c]"
  "options ex_at_filters = Some [CONF_ENTITY_PREFIX \<mapsto> OStr ''ha_'', CONF_INCLUDE_DOMAINS \<mapsto> OStrs [''sensor'']]"
  "entry_options ex_at_filters CONF_SUBSCRIBE_EVENTS = Some (OStrs [''state_changed''])"
  "entry_options ex_at_filters CONF_FILTER = Some (OFilters 0)"
  "next_addr ex_at_filters = 1"
  by (simp_all add: ex_at_filters_def ex_entry_def)

lemma ex_new_string:
  "filter_str ex_fstr 3 (new_filter_of ex_add) = Inr ex_str_new"
  by code_simp

lemma ex_full_string:
  "filter_str ex_fstr 3 (new_filter_of ex_add_full) = Inr ex_str_full"
  by code_simp

lemma new_filter_fields:
  "new_filter_of ui CONF_ENTITY_ID
     = Some (case gf_entity_id ui of None \<Rightarrow> SNone | Some x \<Rightarrow> SStr x)"
  "new_filter_of ui CONF_UNIT_OF_MEASUREMENT
     = Some (case gf_unit_of_measurement ui of None \<Rightarrow> SNone | Some x \<Rightarrow> SStr x)"
  "new_filter_of ui CONF_ABOVE = Some (case gf_above ui of None \<Rightarrow> SNone | Some x \<Rightarrow> SFloat x)"
  "new_filter_of ui CONF_BELOW = Some (case gf_below ui of None \<Rightarrow> SNone | Some x \<Rightarrow> SFloat x)"
  "dom (new_filter_of ui) = {CONF_ENTITY_ID, CONF_UNIT_OF_MEASUREMENT, CONF_ABOVE, CONF_BELOW}"
  by (auto simp add: new_filter_of_def split: if_splits)

lemma ex_filters_differ: "ex_filter_b \<noteq> ex_filter_c"
proof
  assume "ex_filter_b = ex_filter_c"
  then have "ex_filter_b CONF_ENTITY_ID = ex_filter_c CONF_ENTITY_ID" by simp
  then show False by (simp add: ex_filter_b_def ex_filter_c_def)
qed

subsection \<open>Adding one filter\<close>

text \<open>
  C4. A submission of general\_filters that carries the entity-id field shows the
  general\_filters form again. Precondition: the step has been entered before, so that
  \<open>self.filters\<close> is a list whose filters all have display strings. Then one record
  is appended to that list, whose length grows by exactly one. The record has exactly the
  four filter keys; each holds the submitted entity id, unit, above and below, with
  \<open>None\<close> for a field that was not submitted. Its display string is appended both to
  the pre-selected strings and to the choices.
\<close>

theorem add_filter_rerenders:
  assumes "filters st = Some a"
    and "filter_strings fstr (cells st a) = Inr strings"
    and "gf_entity_id ui = Some e"
  shows "\<exists>s r. filter_str fstr (int (length (cells st a))) r = Inr s
           \<and> r = new_filter_of ui
           \<and> dom r = {CONF_ENTITY_ID, CONF_UNIT_OF_MEASUREMENT, CONF_ABOVE, CONF_BELOW}
           \<and> r CONF_ENTITY_ID = Some (SStr e)
           \<and> (gf_unit_of_measurement ui = None \<longrightarrow> r CONF_UNIT_OF_MEASUREMENT = Some SNone)
           \<and> (\<forall>u. gf_unit_of_measurement ui = Some u \<longrightarrow>
                 r CONF_UNIT_OF_MEASUREMENT = Some (SStr u))
           \<and> (gf_above ui = None \<longrightarrow> r CONF_ABOVE = Some SNone)
           \<and> (\<forall>x. gf_above ui = Some x \<longrightarrow> r CONF_ABOVE = Some (SFloat x))
           \<and> (gf_below ui = None \<longrightarrow> r CONF_BELOW = Some SNone)
           \<and> (\<forall>x. gf_below ui = Some x \<longrightarrow> r CONF_BELOW = Some (SFloat x))
           \<and> snd (async_step_general_filters fstr st (Some ui))
               = Inr (FormGeneralFilters (submitted_filters ui @ [s]) (strings @ [s]))
           \<and> fst (async_step_general_filters fstr st (Some ui))
               = st\<lparr>cells := (cells st)(a := cells st a @ [r])\<rparr>
           \<and> filters (fst (async_step_general_filters fstr st (Some ui))) = Some a
           \<and> cells (fst (async_step_general_filters fstr st (Some ui))) a
               = cells st a @ [r]
           \<and> length (cells (fst (async_step_general_filters fstr st (Some ui))) a)
               = length (cells st a) + 1"
proof -
  obtain s where s: "filter_str fstr (int (length (cells st a))) (new_filter_of ui) = Inr s"
    using new_filter_renders by blast
  have fields: "new_filter_of ui CONF_ENTITY_ID = Some (SStr e)"
    "gf_unit_of_measurement ui = None \<longrightarrow> new_filter_of ui CONF_UNIT_OF_MEASUREMENT = Some SNone"
    "\<forall>u. gf_unit_of_measurement ui = Some u \<longrightarrow>
       new_filter_of ui CONF_UNIT_OF_MEASUREMENT = Some (SStr u)"
    "gf_above ui = None \<longrightarrow> new_filter_of ui CONF_ABOVE = Some SNone"
    "\<forall>x. gf_above ui = Some x \<longrightarrow> new_filter_of ui CONF_ABOVE = Some (SFloat x)"
    "gf_below ui = None \<longrightarrow> new_filter_of ui CONF_BELOW = Some SNone"
    "\<forall>x. gf_below ui = Some x \<longrightarrow> new_filter_of ui CONF_BELOW = Some (SFloat x)"
    using assms(3) by (simp_all add: new_filter_fields(1-4))
  have step: "snd (async_step_general_filters fstr st (Some ui))
               = Inr (FormGeneralFilters (submitted_filters ui @ [s]) (strings @ [s]))"
    "fst (async_step_general_filters fstr st (Some ui))
               = st\<lparr>cells := (cells st)(a := cells st a @ [new_filter_of ui])\<rparr>"
    by (simp_all add: add_filter_step [OF assms s])
  have after: "filters (fst (async_step_general_filters fstr st (Some ui))) = Some a"
    "cells (fst (async_step_general_filters fstr st (Some ui))) a
       = cells st a @ [new_filter_of ui]"
    "length (cells (fst (async_step_general_filters fstr st (Some ui))) a)
       = length (cells st a) + 1"
    using assms(1) by (simp_all add: step(2))
  show ?thesis
    by (intro exI [of _ s] exI [of _ "new_filter_of ui"] conjI s refl new_filter_fields(5)
        fields step after)
qed

theorem add_filter_rerenders_witness:
  "filters ex_at_filters = Some 0
   \<and> filter_strings ex_fstr (cells ex_at_filters 0) = Inr [ex_str_a, ex_str_b, ex_str_c]
   \<and> gf_entity_id ex_add_full = Some ''sensor.new''
   \<and> gf_unit_of_measurement ex_add_full = Some ''C''
   \<and> gf_above ex_add_full = Some ''1.5''
   \<and> gf_below ex_add_full = Some ''9.5''
   \<and> snd (async_step_general_filters ex_fstr ex_at_filters (Some ex_add_full))
       = Inr (FormGeneralFilters [ex_str_a, ex_str_b, ex_str_c, ex_str_full]
                [ex_str_a, ex_str_b, ex_str_c, ex_str_full])
   \<and> length (cells (fst (async_step_general_filters ex_fstr ex_at_filters (Some ex_add_full))) 0)
       = 4
   \<and> take 3 (cells (fst (async_step_general_filters ex_fstr ex_at_filters (Some ex_add_full))) 0)
       = [ex_filter_a, ex_filter_b, ex_filter_c]
   \<and> (cells (fst (async_step_general_filters ex_fstr ex_at_filters (Some ex_add_full))) 0 ! 3)
        CONF_ENTITY_ID = Some (SStr ''sensor.new'')
   \<and> (cells (fst (async_step_general_filters ex_fstr ex_at_filters (Some ex_add_full))) 0 ! 3)
        CONF_UNIT_OF_MEASUREMENT = Some (SStr ''C'')
   \<and> (cells (fst (async_step_general_filters ex_fstr ex_at_filters (Some ex_add_full))) 0 ! 3)
        CONF_ABOVE = Some (SFloat ''1.5'')
   \<and> (cells (fst (async_step_general_filters ex_fstr ex_at_filters (Some ex_add_full))) 0 ! 3)
        CONF_BELOW = Some (SFloat ''9.5'')"
proof -
  have h1: "filters ex_at_filters = Some 0" by (simp add: ex_at_filters_simps)
  have h2: "filter_strings ex_fstr (cells ex_at_filters 0) = Inr [ex_str_a, ex_str_b, ex_str_c]"
    by (simp add: ex_at_filters_simps ex_filter_strings)
  have h3: "gf_entity_id ex_add_full = Some ''sensor.new''"
    and h4: "gf_unit_of_measurement ex_add_full = Some ''C''"
    and h5: "gf_above ex_add_full = Some ''1.5''"
    and h6: "gf_below ex_add_full = Some ''9.5''"
    by (simp_all add: ex_add_full_def)
  have sel: "submitted_filters ex_add_full = [ex_str_a, ex_str_b, ex_str_c]"
    by (simp add: submitted_filters_def ex_add_full_def)
  from add_filter_rerenders [OF h1 h2 h3, of ]
  obtain s r where
    s: "filter_str ex_fstr (int (length (cells ex_at_filters 0))) r = Inr s"
    and r: "r = new_filter_of ex_add_full"
    and f1: "r CONF_ENTITY_ID = Some (SStr ''sensor.new'')"
    and f2: "\<forall>u. gf_unit_of_measurement ex_add_full = Some u \<longrightarrow>
                 r CONF_UNIT_OF_MEASUREMENT = Some (SStr u)"
    and f3: "\<forall>x. gf_above ex_add_full = Some x \<longrightarrow> r CONF_ABOVE = Some (SFloat x)"
    and f4: "\<forall>x. gf_below ex_add_full = Some x \<longrightarrow> r CONF_BELOW = Some (SFloat x)"
    and form: "snd (async_step_general_filters ex_fstr ex_at_filters (Some ex_add_full))
               = Inr (FormGeneralFilters (submitted_filters ex_add_full @ [s])
                        ([ex_str_a, ex_str_b, ex_str_c] @ [s]))"
    and cs: "cells (fst (async_step_general_filters ex_fstr ex_at_filters (Some ex_add_full))) 0
               = cells ex_at_filters 0 @ [r]"
    by (elim exE conjE) (rule that)
  have s': "s = ex_str_full"
    using s r ex_full_string by (simp add: ex_at_filters_simps)
  have g2: "r CONF_UNIT_OF_MEASUREMENT = Some (SStr ''C'')"
    and g3: "r CONF_ABOVE = Some (SFloat ''1.5'')"
    and g4: "r CONF_BELOW = Some (SFloat ''9.5'')"
    using f2 f3 f4 h4 h5 h6 by simp_all
  show ?thesis
    using h1 h2 h3 h4 h5 h6 f1 g2 g3 g4
    by (simp add: form cs sel s' ex_at_filters_simps)
qed

subsection \<open>Finalizing the filter list\<close>

text \<open>
  C10. Let every string of a finalize submission's selection be the display string
  generated for some filter of the wizard's current filter list. Then reading the leading
  index succeeds on every selected string, every index lies within the list, and the list
  lookups succeed. Once the draft exists (the init step was submitted) it receives the
  looked-up filters, and when the entry's subscribed events are absent or a list of
  strings the step ends by showing the events form.
\<close>

theorem finalize_never_fails:
  assumes fin: "gf_entity_id ui = None"
    and pre: "\<forall>s\<in>set (submitted_filters ui).
                \<exists>i<length (current_filters st).
                  filter_str fstr (int i) (current_filters st ! i) = Inr s"
  shows "\<exists>idx. comprehension selected_index (submitted_filters ui) = Inr idx
           \<and> (\<forall>i\<in>set idx. 0 \<le> i \<and> i < int (length (current_filters st)))
           \<and> selected_filters st (submitted_filters ui)
               = Inr (map (\<lambda>i. current_filters st ! nat i) idx)
           \<and> (options st \<noteq> None \<longrightarrow>
                draft_filters (fst (async_step_general_filters fstr st (Some ui)))
                  = Some (map (\<lambda>i. current_filters st ! nat i) idx))
           \<and> (options st \<noteq> None
                \<and> (entry_options st CONF_SUBSCRIBE_EVENTS = None
                    \<or> (\<exists>l. entry_options st CONF_SUBSCRIBE_EVENTS = Some (OStrs l))) \<longrightarrow>
                (\<exists>d choices. snd (async_step_general_filters fstr st (Some ui))
                                = Inr (FormEvents d choices)))"
proof -
  from pre have "\<forall>s\<in>set (submitted_filters ui).
      \<exists>i<length (current_filters st). selected_index s = Inr (int i)"
    using selected_index_filter_str by blast
  then obtain idx where idx: "comprehension selected_index (submitted_filters ui) = Inr idx"
    and rng: "\<forall>i\<in>set idx. 0 \<le> i \<and> i < int (length (current_filters st))"
    using selected_indices_in_range by blast
  have sel: "selected_filters st (submitted_filters ui)
      = Inr (map (\<lambda>i. current_filters st ! nat i) idx)"
    using selected_filters_current [OF idx rng] .
  have draft: "draft_filters (fst (async_step_general_filters fstr st (Some ui)))
      = Some (map (\<lambda>i. current_filters st ! nat i) idx)" if "options st \<noteq> None"
  proof -
    from that obtain opts where o: "options st = Some opts" by auto
    show ?thesis using finalize_draft [OF sel o fin] .
  qed
  have form: "\<exists>d choices. snd (async_step_general_filters fstr st (Some ui))
        = Inr (FormEvents d choices)"
    if "options st \<noteq> None"
      and evs: "entry_options st CONF_SUBSCRIBE_EVENTS = None
        \<or> (\<exists>l. entry_options st CONF_SUBSCRIBE_EVENTS = Some (OStrs l))"
  proof -
    from that obtain opts where o: "options st = Some opts" by auto
    show ?thesis
      using evs
      by (auto simp add: finalize_state [OF sel o fin] async_step_events_def dict_get_def
          dict_get_default_def truthy_def py_set_def)
  qed
  from idx rng sel draft form show ?thesis by blast
qed

theorem finalize_never_fails_witness:
  "gf_entity_id ex_finalize_cb = None
   \<and> submitted_filters ex_finalize_cb = [ex_str_c, ex_str_b]
   \<and> current_filters ex_at_filters = [ex_filter_a, ex_filter_b, ex_filter_c]
   \<and> filter_str ex_fstr (int 2) (current_filters ex_at_filters ! 2) = Inr ex_str_c
   \<and> filter_str ex_fstr (int 1) (current_filters ex_at_filters ! 1) = Inr ex_str_b
   \<and> comprehension selected_index (submitted_filters ex_finalize_cb) = Inr [2, 1]
   \<and> selected_filters ex_at_filters (submitted_filters ex_finalize_cb)
       = Inr [ex_filter_c, ex_filter_b]
   \<and> options ex_at_filters \<noteq> None
   \<and> draft_filters (fst (async_step_general_filters ex_fstr ex_at_filters (Some ex_finalize_cb)))
       = Some [ex_filter_c, ex_filter_b]"
proof -
  have h3: "gf_entity_id ex_finalize_cb = None" by (simp add: ex_finalize_cb_def)
  have sel: "submitted_filters ex_finalize_cb = [ex_str_c, ex_str_b]"
    by (simp add: submitted_filters_def ex_finalize_cb_def)
  have cur: "current_filters ex_at_filters = [ex_filter_a, ex_filter_b, ex_filter_c]"
    by (simp add: current_filters_def ex_at_filters_simps)
  have sc: "filter_str ex_fstr (int 2) (current_filters ex_at_filters ! 2) = Inr ex_str_c"
    and sb: "filter_str ex_fstr (int 1) (current_filters ex_at_filters ! 1) = Inr ex_str_b"
    by (simp_all add: cur ex_strings)
  have pre: "\<forall>s\<in>set (submitted_filters ex_finalize_cb).
      \<exists>i<length (current_filters ex_at_filters).
        filter_str ex_fstr (int i) (current_filters ex_at_filters ! i) = Inr s"
  proof
    fix s assume "s \<in> set (submitted_filters ex_finalize_cb)"
    then consider "s = ex_str_c" | "s = ex_str_b" using sel by auto
    then show "\<exists>i<length (current_filters ex_at_filters).
        filter_str ex_fstr (int i) (current_filters ex_at_filters ! i) = Inr s"
    proof cases
      case 1 then show ?thesis using sc by (intro exI [of _ 2]) (simp add: cur)
    next
      case 2 then show ?thesis using sb by (intro exI [of _ 1]) (simp add: cur)
    qed
  qed
  have o: "options ex_at_filters \<noteq> None" by (simp add: ex_at_filters_simps)
  from finalize_never_fails [OF h3 pre] o
  obtain idx where
    idx: "comprehension selected_index (submitted_filters ex_finalize_cb) = Inr idx"
    and chosen: "selected_filters ex_at_filters (submitted_filters ex_finalize_cb)
         = Inr (map (\<lambda>i. current_filters ex_at_filters ! nat i) idx)"
    and draft: "draft_filters
          (fst (async_step_general_filters ex_fstr ex_at_filters (Some ex_finalize_cb)))
         = Some (map (\<lambda>i. current_filters ex_at_filters ! nat i) idx)"
    by blast
  have i2: "selected_index ex_str_c = Inr 2" and i1: "selected_index ex_str_b = Inr 1"
    using selected_index_filter_str [OF ex_strings(3)] selected_index_filter_str [OF ex_strings(2)]
    by simp_all
  have idx': "idx = [2, 1]" using idx sel i1 i2 by simp
  show ?thesis
    using h3 sel cur sc sb idx chosen draft o idx' by simp
qed

text \<open>
  C1, as amended. On the finalize path each selected display string is mapped through its
  leading index to the filter record at that position, and the stored list follows the
  order of the submitted selection: for the filter list \<open>[A, B, C]\<close> the
  submission of the display strings of \<open>B\<close> and \<open>C\<close> stores
  \<open>[B, C]\<close> when they are submitted in this order and \<open>[C, B]\<close> when they
  are submitted in the opposite order.
\<close>

theorem finalize_keeps_submission_order:
  assumes flt: "filters st = Some a"
    and abc: "cells st a = [A, B, C]"
    and opts: "options st = Some opts"
    and fin: "gf_entity_id ui = None"
    and sB: "filter_str fstr 1 B = Inr sB"
    and sC: "filter_str fstr 2 C = Inr sC"
  shows "(gf_filter ui = Some [sB, sC] \<longrightarrow>
            draft_filters (fst (async_step_general_filters fstr st (Some ui))) = Some [B, C])
       \<and> (gf_filter ui = Some [sC, sB] \<longrightarrow>
            draft_filters (fst (async_step_general_filters fstr st (Some ui))) = Some [C, B])"
proof -
  have iB: "selected_index sB = Inr 1" and iC: "selected_index sC = Inr 2"
    using selected_index_filter_str [OF sB] selected_index_filter_str [OF sC] by simp_all
  have bc: "gf_filter ui = Some [sB, sC] \<Longrightarrow>
      selected_filters st (submitted_filters ui) = Inr [B, C]"
    using flt abc iB iC
    by (simp add: selected_filters_def submitted_filters_def bind_e_def py_getitem_def)
  have cb: "gf_filter ui = Some [sC, sB] \<Longrightarrow>
      selected_filters st (submitted_filters ui) = Inr [C, B]"
    using flt abc iB iC
    by (simp add: selected_filters_def submitted_filters_def bind_e_def py_getitem_def)
  show ?thesis
    using finalize_draft [OF bc opts fin] finalize_draft [OF cb opts fin] by blast
qed

theorem finalize_keeps_submission_order_witness:
  "filters ex_at_filters = Some 0
   \<and> cells ex_at_filters 0 = [ex_filter_a, ex_filter_b, ex_filter_c]
   \<and> options ex_at_filters \<noteq> None
   \<and> filter_str ex_fstr 1 ex_filter_b = Inr ex_str_b
   \<and> filter_str ex_fstr 2 ex_filter_c = Inr ex_str_c
   \<and> gf_filter ex_finalize_bc = Some [ex_str_b, ex_str_c]
   \<and> gf_entity_id ex_finalize_bc = None
   \<and> draft_filters (fst (async_step_general_filters ex_fstr ex_at_filters (Some ex_finalize_bc)))
       = Some [ex_filter_b, ex_filter_c]"
proof -
  have f: "gf_filter ex_finalize_bc = Some [ex_str_b, ex_str_c]"
    and e: "gf_entity_id ex_finalize_bc = None"
    by (simp_all add: ex_finalize_bc_def)
  show ?thesis
    using finalize_keeps_submission_order [OF ex_at_filters_simps(1,2,3) e ex_strings(2,3)] f e
    by (simp add: ex_at_filters_simps ex_strings)
qed

text \<open>The claim as first stated asks for \<open>[B, C]\<close> whatever the order of
  the submission; with the two strings submitted as "3. ..." then "2. ..." the draft
  holds \<open>[C, B]\<close>.\<close>

theorem finalize_reordered_counterexample:
  "gf_filter ex_finalize_cb = Some [ex_str_c, ex_str_b]
   \<and> gf_entity_id ex_finalize_cb = None
   \<and> persisted_filters ex_at_filters = Some [ex_filter_a, ex_filter_b, ex_filter_c]
   \<and> draft_filters (fst (async_step_general_filters ex_fstr ex_at_filters (Some ex_finalize_cb)))
       = Some [ex_filter_c, ex_filter_b]
   \<and> draft_filters (fst (async_step_general_filters ex_fstr ex_at_filters (Some ex_finalize_cb)))
       \<noteq> Some [ex_filter_b, ex_filter_c]"
proof -
  have i2: "selected_index ex_str_c = Inr 2" and i1: "selected_index ex_str_b = Inr 1"
    by (simp_all add: ex_str_b_def ex_str_c_def selected_index_def split0_def py_getitem_def
        bind_e_def py_int_def py_strip_def py_isspace_def int_unsigned_def py_isdigit_def
        digit_val_def)
  have e: "gf_entity_id ex_finalize_cb = None" by (simp add: ex_finalize_cb_def)
  have sel: "selected_filters ex_at_filters (submitted_filters ex_finalize_cb)
      = Inr [ex_filter_c, ex_filter_b]"
    by (simp add: selected_filters_def submitted_filters_def ex_finalize_cb_def i1 i2 bind_e_def
        ex_at_filters_simps py_getitem_def)
  have d: "draft_filters (fst (async_step_general_filters ex_fstr ex_at_filters (Some ex_finalize_cb)))
       = Some [ex_filter_c, ex_filter_b]"
    using finalize_draft [OF sel ex_at_filters_simps(3) e] .
  show ?thesis
    using d ex_filters_differ
    by (simp add: ex_finalize_cb_def persisted_filters_def ex_at_filters_simps)
qed

subsection \<open>The entry's own filter list\<close>

text \<open>
  C6. The claim says that adding a filter leaves the filter list of the entry's options
  as it was. On the first entry of general\_filters the wizard takes the list object of
  the entry's options as \<open>self.filters\<close>, and the add path appends to that object:
  in the example run the entry's list has three filters before the wizard starts and four
  after one filter was added, with nothing completed.
\<close>

theorem add_filter_changes_persisted_list:
  "persisted_filters ex_entry = Some [ex_filter_a, ex_filter_b, ex_filter_c]
   \<and> persisted_filters
        (fst (async_step_general_filters ex_fstr
           (fst (async_step_domain_entity_filters ex_fstr
              (fst (async_step_init ex_fstr ex_entry (Some ex_init_input)))
              (Some ex_domain_input)))
           (Some ex_add)))
       = Some [ex_filter_a, ex_filter_b, ex_filter_c, new_filter_of ex_add]
   \<and> length [ex_filter_a, ex_filter_b, ex_filter_c, new_filter_of ex_add]
       \<noteq> length [ex_filter_a, ex_filter_b, ex_filter_c]"
proof -
  have h2: "filter_strings ex_fstr (cells ex_at_filters 0) = Inr [ex_str_a, ex_str_b, ex_str_c]"
    by (simp add: ex_at_filters_simps ex_filter_strings)
  have h3: "gf_entity_id ex_add = Some ''sensor.new''" by (simp add: ex_add_def)
  have s: "filter_str ex_fstr (int (length (cells ex_at_filters 0))) (new_filter_of ex_add)
      = Inr ex_str_new"
    using ex_new_string by (simp add: ex_at_filters_simps)
  have "fst (async_step_general_filters ex_fstr ex_at_filters (Some ex_add))
      = ex_at_filters\<lparr>cells := (cells ex_at_filters)
            (0 := cells ex_at_filters 0 @ [new_filter_of ex_add])\<rparr>"
    by (simp add: add_filter_step [OF ex_at_filters_simps(1) h2 h3 s])
  then show ?thesis
    by (simp add: ex_reach_filters persisted_filters_def ex_at_filters_simps)
      (simp add: ex_entry_def)
qed

section \<open>The events step\<close>

lemma ex_reach_events:
  "async_step_general_filters ex_fstr ex_at_filters (Some ex_finalize_bc)
   = (ex_at_events, Inr (FormEvents (Default (OStrs [''state_changed''])) {|''state_changed''|}))"
proof -
  have e: "gf_entity_id ex_finalize_bc = None" by (simp add: ex_finalize_bc_def)
  have i2: "selected_index ex_str_c = Inr 2" and i1: "selected_index ex_str_b = Inr 1"
    using selected_index_filter_str [OF ex_strings(3)] selected_index_filter_str [OF ex_strings(2)]
    by simp_all
  have sel: "selected_filters ex_at_filters (submitted_filters ex_finalize_bc)
      = Inr [ex_filter_b, ex_filter_c]"
    by (simp add: selected_filters_def submitted_filters_def ex_finalize_bc_def i1 i2 bind_e_def
        ex_at_filters_simps py_getitem_def)
  show ?thesis
    unfolding finalize_state [OF sel ex_at_filters_simps(3) e]
    by (simp add: async_step_events_def dict_get_def dict_get_default_def truthy_def py_set_def
        default_of_def ex_at_events_def ex_at_filters_def ex_entry_def Let_def)
qed

lemma events_add_step:
  "events st = Some evs \<Longrightarrow> ev_add_new_event ui = Some name \<Longrightarrow>
   async_step_events st (Some ui)
   = (st\<lparr>events := Some (finsert name evs)\<rparr>,
      Inr (FormEvents (Default (OStrs (submitted_events ui @ [name]))) (finsert name evs)))"
  by (simp add: async_step_events_def)

lemma events_finalize_step:
  "options st = Some opts \<Longrightarrow> ev_add_new_event ui = None \<Longrightarrow>
   async_step_events st (Some ui)
   = (st\<lparr>options := Some (opts(CONF_SUBSCRIBE_EVENTS \<mapsto> OStrs (submitted_events ui)))\<rparr>,
      Inr (CreateEntry [] (opts(CONF_SUBSCRIBE_EVENTS \<mapsto> OStrs (submitted_events ui)))))"
  by (simp add: async_step_events_def Let_def)

lemma count_list_distinct: "distinct xs \<Longrightarrow> x \<in> set xs \<Longrightarrow> count_list xs x = 1"
  by (induction xs) auto

lemma count_sorted_list_of_fset: "x |\<in>| S \<Longrightarrow> count_list (sorted_list_of_fset S) x = 1"
  by (rule count_list_distinct) (simp_all add: sorted_list_of_fset.rep_eq)

text \<open>
  The set of event names offered as choices holds a name once, however often it is
  added, and the finalize path stores the submitted list as it is.
\<close>

lemma event_choices_deduplicated:
  assumes "events st = Some evs"
    and "options st = Some opts"
    and "ev_add_new_event add1 = Some name"
    and "ev_add_new_event add2 = Some name"
    and "ev_add_new_event fin = None"
  shows "events (fst (async_step_events (fst (async_step_events st (Some add1))) (Some add2)))
           = Some (finsert name evs)
       \<and> (\<exists>d. snd (async_step_events (fst (async_step_events st (Some add1))) (Some add2))
                 = Inr (FormEvents d (finsert name evs)))
       \<and> count_list (sorted_list_of_fset (finsert name evs)) name = 1
       \<and> draft_events
            (fst (async_step_events
               (fst (async_step_events (fst (async_step_events st (Some add1))) (Some add2)))
               (Some fin)))
           = Some (submitted_events fin)
       \<and> snd (async_step_events
               (fst (async_step_events (fst (async_step_events st (Some add1))) (Some add2)))
               (Some fin))
           = Inr (CreateEntry [] (opts(CONF_SUBSCRIBE_EVENTS \<mapsto> OStrs (submitted_events fin))))"
proof -
  let ?st1 = "st\<lparr>events := Some (finsert name evs)\<rparr>"
  have s1: "fst (async_step_events st (Some add1)) = ?st1"
    using events_add_step [OF assms(1,3)] by simp
  have e1: "events ?st1 = Some (finsert name evs)" by simp
  have s2: "async_step_events ?st1 (Some add2)
      = (?st1, Inr (FormEvents (Default (OStrs (submitted_events add2 @ [name]))) (finsert name evs)))"
    using events_add_step [OF e1 assms(4)] by simp
  have o2: "options ?st1 = Some opts" using assms(2) by simp
  show ?thesis
    using count_sorted_list_of_fset [of name "finsert name evs"]
    by (simp add: s1 s2 events_finalize_step [OF o2 assms(5)] draft_events_def)
qed

text \<open>
  The add path appends the name to the selection without looking whether it is there:
  when each submission sends back what the previous form pre-selected, the second add
  pre-selects the name twice and the finalize step stores it twice. This holds for
  every wizard state at the events step, every name and every first selection.
\<close>

lemma resent_default_stores_repeat:
  assumes "events st = Some evs"
    and "options st = Some opts"
    and "ev_add_new_event add1 = Some name"
  shows "snd (async_step_events st (Some add1))
           = Inr (FormEvents (Default (OStrs (submitted_events add1 @ [name]))) (finsert name evs))
       \<and> snd (async_step_events (fst (async_step_events st (Some add1)))
                (Some \<lparr>ev_subscribe_events = Some (submitted_events add1 @ [name]),
                       ev_add_new_event = Some name\<rparr>))
           = Inr (FormEvents (Default (OStrs (submitted_events add1 @ [name, name])))
                    (finsert name evs))
       \<and> draft_events
            (fst (async_step_events
               (fst (async_step_events (fst (async_step_events st (Some add1)))
                  (Some \<lparr>ev_subscribe_events = Some (submitted_events add1 @ [name]),
                         ev_add_new_event = Some name\<rparr>)))
               (Some \<lparr>ev_subscribe_events = Some (submitted_events add1 @ [name, name]),
                      ev_add_new_event = None\<rparr>)))
           = Some (submitted_events add1 @ [name, name])
       \<and> 2 \<le> count_list (submitted_events add1 @ [name, name]) name"
proof -
  let ?st1 = "st\<lparr>events := Some (finsert name evs)\<rparr>"
  let ?add2 = "\<lparr>ev_subscribe_events = Some (submitted_events add1 @ [name]),
                ev_add_new_event = Some name\<rparr>"
  let ?fin = "\<lparr>ev_subscribe_events = Some (submitted_events add1 @ [name, name]),
               ev_add_new_event = None\<rparr>"
  have s1: "async_step_events st (Some add1)
      = (?st1, Inr (FormEvents (Default (OStrs (submitted_events add1 @ [name])))
                      (finsert name evs)))"
    using events_add_step [OF assms(1,3)] .
  have e1: "events ?st1 = Some (finsert name evs)" by simp
  have a2: "ev_add_new_event ?add2 = Some name" by simp
  have s2: "async_step_events ?st1 (Some ?add2)
      = (?st1, Inr (FormEvents (Default (OStrs (submitted_events add1 @ [name, name])))
                      (finsert name evs)))"
    using events_add_step [OF e1 a2] by (simp add: submitted_events_def)
  have o: "options ?st1 = Some opts" using assms(2) by simp
  have f: "ev_add_new_event ?fin = None" by simp
  have s3: "draft_events (fst (async_step_events ?st1 (Some ?fin)))
      = Some (submitted_events add1 @ [name, name])"
    unfolding events_finalize_step [OF o f]
    by (simp add: draft_events_def submitted_events_def)
  have c: "2 \<le> count_list (submitted_events add1 @ [name, name]) name"
    by simp
  show ?thesis
    by (simp only: s1 s2 s3 c fst_conv snd_conv simp_thms)
qed

text \<open>
  C5. The claim says that an event name added twice appears at most once in the list
  that the finalize step stores into the draft. In the example run the entry subscribes
  to one event, the name x is added twice, and every submission sends back exactly what
  the previous form pre-selected: the second form pre-selects x twice, and the stored
  list holds x twice, while the choice set holds it once.
\<close>

theorem event_added_twice_stored_twice:
  "snd (async_step_events ex_at_events (Some ex_add_event_1))
     = Inr (FormEvents (Default (OStrs [''state_changed'', ''x''])) {|''x'', ''state_changed''|})
   \<and> snd (async_step_events (fst (async_step_events ex_at_events (Some ex_add_event_1)))
            (Some ex_add_event_2))
     = Inr (FormEvents (Default (OStrs [''state_changed'', ''x'', ''x'']))
              {|''x'', ''state_changed''|})
   \<and> draft_events
        (fst (async_step_events
           (fst (async_step_events (fst (async_step_events ex_at_events (Some ex_add_event_1)))
              (Some ex_add_event_2)))
           (Some ex_events_finalize)))
       = Some [''state_changed'', ''x'', ''x'']
   \<and> count_list [''state_changed'', ''x'', ''x''] ''x'' = 2"
proof -
  have h1: "events ex_at_events = Some {|''state_changed''|}"
    by (simp add: ex_at_events_def)
  have h3: "ev_add_new_event ex_add_event_1 = Some ''x''"
    and h4: "ev_add_new_event ex_add_event_2 = Some ''x''"
    and h5: "ev_add_new_event ex_events_finalize = None"
    by (simp_all add: ex_add_event_1_def ex_add_event_2_def ex_events_finalize_def)
  let ?st1 = "ex_at_events\<lparr>events := Some {|''x'', ''state_changed''|}\<rparr>"
  have s1: "async_step_events ex_at_events (Some ex_add_event_1)
      = (?st1, Inr (FormEvents (Default (OStrs [''state_changed'', ''x'']))
                      {|''x'', ''state_changed''|}))"
    using events_add_step [OF h1 h3] by (simp add: submitted_events_def ex_add_event_1_def)
  have e1: "events ?st1 = Some {|''x'', ''state_changed''|}" by simp
  have s2: "async_step_events ?st1 (Some ex_add_event_2)
      = (?st1, Inr (FormEvents (Default (OStrs [''state_changed'', ''x'', ''x'']))
                      {|''x'', ''state_changed''|}))"
    using events_add_step [OF e1 h4] by (simp add: submitted_events_def ex_add_event_2_def)
  have o: "options ?st1 = Some [CONF_ENTITY_PREFIX \<mapsto> OStr ''ha_'',
                                    CONF_INCLUDE_DOMAINS \<mapsto> OStrs [''sensor''],
                                    CONF_FILTER \<mapsto> OFilters 1]"
    by (simp add: ex_at_events_def)
  have s3: "draft_events (fst (async_step_events ?st1 (Some ex_events_finalize)))
      = Some [''state_changed'', ''x'', ''x'']"
    unfolding events_finalize_step [OF o h5]
    by (simp add: draft_events_def submitted_events_def ex_events_finalize_def)
  show ?thesis
    by (simp add: s1 s2 s3)
qed

section \<open>The domain\_entity\_filters step\<close>

lemma split_on_hd: "hd (split_on c s) = takeWhile (\<lambda>x. x \<noteq> c) s"
  by (induction s) (auto simp add: split_on_nonempty split: list.splits)

lemma split0_prefix: "split0 s = Inr (takeWhile (\<lambda>x. x \<noteq> CHR ''.'') s)"
proof -
  obtain w ws where "split_on CHR ''.'' s = w # ws"
    using split_on_nonempty [of "CHR ''.''" s] by (cases "split_on CHR ''.'' s") auto
  then show ?thesis
    using split_on_hd [of "CHR ''.''" s] by (simp add: split0_def py_getitem_def)
qed

lemma py_set_stored:
  "stored_entities st k = Some l \<Longrightarrow>
   py_set (cells st) (dict_get_default (entry_options st) k (OStrs [])) = Inr (fset_of_list l)"
  by (auto simp add: stored_entities_def dict_get_default_def py_set_def
      split: option.splits optval.splits)

lemma domains_and_entities_stored:
  assumes "remote_entity_names st = Some remote"
    and "stored_entities st CONF_INCLUDE_ENTITIES = Some inc"
    and "stored_entities st CONF_EXCLUDE_ENTITIES = Some exc"
  shows "domains_and_entities st
         = Inr (sorted_list_of_fset
                  (fset_of_list
                     (map (takeWhile (\<lambda>x. x \<noteq> CHR ''.''))
                        (sorted_list_of_fset (remote |\<union>| fset_of_list inc |\<union>| fset_of_list exc)))),
                sorted_list_of_fset (remote |\<union>| fset_of_list inc |\<union>| fset_of_list exc))"
proof -
  have "comprehension split0 xs = Inr (map (takeWhile (\<lambda>x. x \<noteq> CHR ''.'')) xs)" for xs
    by (rule comprehension_map) (simp add: split0_prefix)
  then show ?thesis
    using assms(1)
    by (simp add: domains_and_entities_def py_set_stored [OF assms(2)] py_set_stored [OF assms(3)]
        bind_e_def Let_def)
qed

lemma ex_domains_and_entities:
  "domains_and_entities ex_entry
   = Inr ([''light'', ''sensor''], [''light.b'', ''sensor.a'', ''sensor.gone''])"
proof -
  have h1: "remote_entity_names ex_entry = Some {|''sensor.a'', ''light.b''|}"
    and h2: "stored_entities ex_entry CONF_INCLUDE_ENTITIES = Some [''sensor.gone'']"
    and h3: "stored_entities ex_entry CONF_EXCLUDE_ENTITIES = Some []"
    by (simp_all add: ex_entry_def stored_entities_def)
  have e: "sorted_list_of_fset ({|''sensor.a'', ''light.b''|} |\<union>| fset_of_list [''sensor.gone''] |\<union>| fset_of_list [])
      = [''light.b'', ''sensor.a'', ''sensor.gone'']"
    by (simp add: sorted_list_of_fset.rep_eq)
  have d: "sorted_list_of_fset (fset_of_list (map (takeWhile (\<lambda>x. x \<noteq> CHR ''.'')) [''light.b'', ''sensor.a'', ''sensor.gone'']))
      = [''light'', ''sensor'']"
    by (simp add: sorted_list_of_fset.rep_eq)
  show ?thesis
    unfolding domains_and_entities_stored [OF h1 h2 h3] e d ..
qed

lemma ex_entry_defaults:
  "default_of ex_entry CONF_INCLUDE_DOMAINS = UNDEFINED"
  "default_of ex_entry CONF_INCLUDE_ENTITIES = Default (OStrs [''sensor.gone''])"
  "default_of ex_entry CONF_EXCLUDE_DOMAINS = UNDEFINED"
  "default_of ex_entry CONF_EXCLUDE_ENTITIES = UNDEFINED"
  by (simp_all add: default_of_def dict_get_def dict_get_default_def truthy_def ex_entry_def)

lemma ex_domain_form:
  "async_step_domain_entity_filters ex_fstr ex_entry None
       = (ex_entry,
          Inr (FormDomainEntityFilters [''light'', ''sensor'']
                 [''light.b'', ''sensor.a'', ''sensor.gone'']
                 UNDEFINED (Default (OStrs [''sensor.gone''])) UNDEFINED UNDEFINED))"
  by (simp add: async_step_domain_entity_filters_def ex_domains_and_entities ex_entry_defaults)

text \<open>
  C7. The entity choices of the domain\_entity\_filters form contain every entity of the
  entry's stored include-entities and exclude-entities lists, whether or not the remote
  still reports it, and the domain choices contain the text before the first dot of
  every such entity. The stored values are lists of strings or absent, and the remote
  connection is registered.
\<close>

theorem stale_entities_offered:
  assumes "remote_entity_names st = Some remote"
    and "stored_entities st CONF_INCLUDE_ENTITIES = Some inc"
    and "stored_entities st CONF_EXCLUDE_ENTITIES = Some exc"
  shows "\<exists>domains entities d1 d2 d3 d4.
           async_step_domain_entity_filters fstr st None
             = (st, Inr (FormDomainEntityFilters domains entities d1 d2 d3 d4))
           \<and> domains_and_entities st = Inr (domains, entities)
           \<and> fset remote \<subseteq> set entities
           \<and> (\<forall>e\<in>set inc \<union> set exc.
                 e \<in> set entities \<and> takeWhile (\<lambda>x. x \<noteq> CHR ''.'') e \<in> set domains)"
proof -
  let ?entities = "sorted_list_of_fset (remote |\<union>| fset_of_list inc |\<union>| fset_of_list exc)"
  let ?domains = "sorted_list_of_fset
                    (fset_of_list (map (takeWhile (\<lambda>x. x \<noteq> CHR ''.'')) ?entities))"
  have de: "domains_and_entities st = Inr (?domains, ?entities)"
    using domains_and_entities_stored [OF assms] .
  have ents: "set ?entities = fset remote \<union> set inc \<union> set exc"
    by (simp add: fset_of_list.rep_eq)
  have doms: "set ?domains = takeWhile (\<lambda>x. x \<noteq> CHR ''.'') ` set ?entities"
    by (simp add: fset_of_list.rep_eq)
  have step: "async_step_domain_entity_filters fstr st None
      = (st, Inr (FormDomainEntityFilters ?domains ?entities
                    (default_of st CONF_INCLUDE_DOMAINS) (default_of st CONF_INCLUDE_ENTITIES)
                    (default_of st CONF_EXCLUDE_DOMAINS) (default_of st CONF_EXCLUDE_ENTITIES)))"
    by (simp add: async_step_domain_entity_filters_def de)
  have "\<forall>e\<in>set inc \<union> set exc.
      e \<in> set ?entities \<and> takeWhile (\<lambda>x. x \<noteq> CHR ''.'') e \<in> set ?domains"
    unfolding doms ents by blast
  moreover have "fset remote \<subseteq> set ?entities"
    unfolding ents by blast
  ultimately show ?thesis
    using step de by blast
qed

theorem stale_entities_offered_witness:
  "remote_entity_names ex_entry = Some {|''sensor.a'', ''light.b''|}
   \<and> stored_entities ex_entry CONF_INCLUDE_ENTITIES = Some [''sensor.gone'']
   \<and> stored_entities ex_entry CONF_EXCLUDE_ENTITIES = Some []
   \<and> async_step_domain_entity_filters ex_fstr ex_entry None
       = (ex_entry,
          Inr (FormDomainEntityFilters [''light'', ''sensor'']
                 [''light.b'', ''sensor.a'', ''sensor.gone'']
                 UNDEFINED (Default (OStrs [''sensor.gone''])) UNDEFINED UNDEFINED))
   \<and> ''sensor.gone'' \<in> set [''light.b'', ''sensor.a'', ''sensor.gone'']
   \<and> takeWhile (\<lambda>x. x \<noteq> CHR ''.'') ''sensor.gone'' \<in> set [''light'', ''sensor'']"
proof -
  have h1: "remote_entity_names ex_entry = Some {|''sensor.a'', ''light.b''|}"
    and h2: "stored_entities ex_entry CONF_INCLUDE_ENTITIES = Some [''sensor.gone'']"
    and h3: "stored_entities ex_entry CONF_EXCLUDE_ENTITIES = Some []"
    by (simp_all add: ex_entry_def stored_entities_def)
  from stale_entities_offered [OF h1 h2 h3, of ex_fstr]
  obtain domains entities where
    de: "domains_and_entities ex_entry = Inr (domains, entities)"
    and mem: "\<forall>e\<in>set [''sensor.gone''] \<union> set [].
                 e \<in> set entities \<and> takeWhile (\<lambda>x. x \<noteq> CHR ''.'') e \<in> set domains"
    by blast
  from de have eq: "domains = [''light'', ''sensor'']"
      "entities = [''light.b'', ''sensor.a'', ''sensor.gone'']"
    unfolding ex_domains_and_entities by simp_all
  from mem have m: "''sensor.gone'' \<in> set [''light.b'', ''sensor.a'', ''sensor.gone'']
      \<and> takeWhile (\<lambda>x. x \<noteq> CHR ''.'') ''sensor.gone'' \<in> set [''light'', ''sensor'']"
    unfolding eq by simp
  show ?thesis
    by (intro conjI h1 h2 h3 ex_domain_form conjunct1 [OF m] conjunct2 [OF m])
qed

text \<open>
  C8. For every option key the default-value helper returns the stored value when one is
  stored and true, and the "no default" marker otherwise; an empty stored list gives the
  same marker as a key that was never stored.
\<close>

theorem default_stored_truthy_or_undefined:
  "(entry_options st conf = Some v \<and> truthy (cells st) v \<longrightarrow> default_of st conf = Default v)
   \<and> (entry_options st conf = Some v \<and> \<not> truthy (cells st) v \<longrightarrow> default_of st conf = UNDEFINED)
   \<and> (entry_options st conf = None \<longrightarrow> default_of st conf = UNDEFINED)
   \<and> (entry_options st conf = Some (OStrs []) \<and> entry_options st conf' = None \<longrightarrow>
        default_of st conf = UNDEFINED \<and> default_of st conf' = UNDEFINED)"
  by (simp add: default_of_def dict_get_def dict_get_default_def truthy_def Let_def)

theorem default_stored_truthy_or_undefined_witness:
  "entry_options ex_entry_empty_list CONF_INCLUDE_DOMAINS = Some (OStrs [])
   \<and> entry_options ex_entry_empty_list CONF_EXCLUDE_DOMAINS = None
   \<and> default_of ex_entry_empty_list CONF_INCLUDE_DOMAINS = UNDEFINED
   \<and> default_of ex_entry_empty_list CONF_EXCLUDE_DOMAINS = UNDEFINED
   \<and> entry_options ex_entry_empty_list CONF_INCLUDE_ENTITIES = Some (OStrs [''sensor.gone''])
   \<and> truthy (cells ex_entry_empty_list) (OStrs [''sensor.gone''])
   \<and> default_of ex_entry_empty_list CONF_INCLUDE_ENTITIES = Default (OStrs [''sensor.gone''])"
proof -
  have h1: "entry_options ex_entry_empty_list CONF_INCLUDE_DOMAINS = Some (OStrs [])"
    and h2: "entry_options ex_entry_empty_list CONF_EXCLUDE_DOMAINS = None"
    and h3: "entry_options ex_entry_empty_list CONF_INCLUDE_ENTITIES = Some (OStrs [''sensor.gone''])"
    and h4: "truthy (cells ex_entry_empty_list) (OStrs [''sensor.gone''])"
    by (simp_all add: ex_entry_empty_list_def ex_entry_def truthy_def)
  show ?thesis
    using default_stored_truthy_or_undefined
            [of ex_entry_empty_list CONF_INCLUDE_DOMAINS "OStrs []" CONF_EXCLUDE_DOMAINS]
          default_stored_truthy_or_undefined
            [of ex_entry_empty_list CONF_INCLUDE_ENTITIES "OStrs [''sensor.gone'']"]
          h1 h2 h3 h4
    by simp
qed

section \<open>The connection setup step\<close>

text \<open>
  C2. When discovery raises, the user form is shown again with exactly one error under
  the key base, no entry is created and the flow is unchanged: an API problem gives
  api\_problem, a connectivity failure (\<open>CannotConnect\<close>, or an \<open>OSError\<close> that
  \<open>validate_input\<close> converts) gives cannot\_connect, an authentication failure gives
  invalid\_auth, and every other exception gives unknown.
\<close>

theorem setup_error_codes:
  assumes "discover (host ui) (port ui) (secure ui) (access_token ui) (verify_ssl ui) = Raises e"
  shows "(e = ApiProblem \<longrightarrow>
            async_step_user discover entries flow (Some ui)
              = (flow, FormUser [''base'' \<mapsto> ''api_problem'']))
       \<and> (e = CannotConnect \<or> e = OSError \<longrightarrow>
            async_step_user discover entries flow (Some ui)
              = (flow, FormUser [''base'' \<mapsto> ''cannot_connect'']))
       \<and> (e = InvalidAuth \<longrightarrow>
            async_step_user discover entries flow (Some ui)
              = (flow, FormUser [''base'' \<mapsto> ''invalid_auth'']))
       \<and> (e \<notin> {ApiProblem, CannotConnect, OSError, InvalidAuth} \<longrightarrow>
            async_step_user discover entries flow (Some ui)
              = (flow, FormUser [''base'' \<mapsto> ''unknown'']))"
  using assms by (auto simp add: async_step_user_def validate_input_def)

theorem setup_error_codes_witness:
  "ex_discover (Raises OSError) (host ex_conn) (port ex_conn) (secure ex_conn)
      (access_token ex_conn) (verify_ssl ex_conn) = Raises OSError
   \<and> async_step_user (ex_discover (Raises OSError)) [] ex_flow (Some ex_conn)
       = (ex_flow, FormUser [''base'' \<mapsto> ''cannot_connect''])
   \<and> async_step_user (ex_discover (Raises CannotConnect)) [] ex_flow (Some ex_conn)
       = (ex_flow, FormUser [''base'' \<mapsto> ''cannot_connect''])
   \<and> async_step_user (ex_discover (Raises ApiProblem)) [] ex_flow (Some ex_conn)
       = (ex_flow, FormUser [''base'' \<mapsto> ''api_problem''])
   \<and> async_step_user (ex_discover (Raises InvalidAuth)) [] ex_flow (Some ex_conn)
       = (ex_flow, FormUser [''base'' \<mapsto> ''invalid_auth''])
   \<and> async_step_user (ex_discover (Raises ValueError)) [] ex_flow (Some ex_conn)
       = (ex_flow, FormUser [''base'' \<mapsto> ''unknown''])"
proof -
  have r: "ex_discover (Raises e) (host ex_conn) (port ex_conn) (secure ex_conn)
      (access_token ex_conn) (verify_ssl ex_conn) = Raises e" for e
    by (simp add: ex_discover_def)
  note inst = setup_error_codes [where ui = ex_conn and entries = "[]" and flow = ex_flow]
  show ?thesis
    using inst [where discover = "ex_discover (Raises OSError)" and e = OSError, OF r]
      inst [where discover = "ex_discover (Raises CannotConnect)" and e = CannotConnect, OF r]
      inst [where discover = "ex_discover (Raises ApiProblem)" and e = ApiProblem, OF r]
      inst [where discover = "ex_discover (Raises InvalidAuth)" and e = InvalidAuth, OF r]
      inst [where discover = "ex_discover (Raises ValueError)" and e = ValueError, OF r]
      r [of OSError]
    by simp
qed

text \<open>
  C3. When discovery returns an info mapping with a uuid and a location name, and no
  entry with that uuid is registered, the step gives the flow the uuid as unique id and
  creates an entry titled with the location name; the host registers it under that
  unique id. A second attempt whose discovery reports the same uuid aborts, and the
  registry stays as it was.
\<close>

theorem setup_unique_entry:
  assumes "discover (host ui) (port ui) (secure ui) (access_token ui) (verify_ssl ui) = Returns info"
    and "info ''uuid'' = Some u"
    and "info ''location_name'' = Some name"
    and "\<not> list_ex (\<lambda>e. entry_unique_id e = Some u) entries"
    and "discover_b (host ui_b) (port ui_b) (secure ui_b) (access_token ui_b) (verify_ssl ui_b)
         = Returns info_b"
    and "info_b ''uuid'' = Some u"
    and "info_b ''location_name'' = Some name_b"
  shows "async_step_user discover entries flow (Some ui)
           = (flow\<lparr>unique_id := Some u\<rparr>, CreateConfigEntry name ui)
       \<and> host_finish entries (async_step_user discover entries flow (Some ui))
           = entries @ [\<lparr>entry_unique_id = Some u, entry_title = name, entry_data = ui\<rparr>]
       \<and> snd (async_step_user discover_b
                 (host_finish entries (async_step_user discover entries flow (Some ui)))
                 flow_b (Some ui_b))
           = AbortFlow ''already_configured''
       \<and> host_finish (host_finish entries (async_step_user discover entries flow (Some ui)))
            (async_step_user discover_b
               (host_finish entries (async_step_user discover entries flow (Some ui)))
               flow_b (Some ui_b))
           = host_finish entries (async_step_user discover entries flow (Some ui))"
proof -
  have first: "async_step_user discover entries flow (Some ui)
           = (flow\<lparr>unique_id := Some u\<rparr>, CreateConfigEntry name ui)"
    using assms(1-4)
    by (simp add: async_step_user_def validate_input_def dict_item_def bind_e_def
        async_set_unique_id_def abort_if_unique_id_configured_def)
  have reg: "host_finish entries (async_step_user discover entries flow (Some ui))
           = entries @ [\<lparr>entry_unique_id = Some u, entry_title = name, entry_data = ui\<rparr>]"
    by (simp add: first host_finish_def)
  have second: "async_step_user discover_b
        (entries @ [\<lparr>entry_unique_id = Some u, entry_title = name, entry_data = ui\<rparr>])
        flow_b (Some ui_b)
      = (flow_b\<lparr>unique_id := Some u\<rparr>, AbortFlow ''already_configured'')"
    using assms(5-7)
    by (simp add: async_step_user_def validate_input_def dict_item_def bind_e_def
        async_set_unique_id_def abort_if_unique_id_configured_def list_ex_iff)
  show ?thesis
    unfolding reg by (simp add: first second host_finish_def)
qed

theorem setup_unique_entry_witness:
  "ex_discover (Returns ex_info) (host ex_conn) (port ex_conn) (secure ex_conn)
      (access_token ex_conn) (verify_ssl ex_conn) = Returns ex_info
   \<and> ex_info ''uuid'' = Some ''0123abcd''
   \<and> ex_info ''location_name'' = Some ''Cabin''
   \<and> \<not> list_ex (\<lambda>e. entry_unique_id e = Some ''0123abcd'') []
   \<and> ex_discover (Returns ex_info2) (host ex_conn2) (port ex_conn2) (secure ex_conn2)
      (access_token ex_conn2) (verify_ssl ex_conn2) = Returns ex_info2
   \<and> ex_info2 ''uuid'' = Some ''0123abcd''
   \<and> ex_info2 ''location_name'' = Some ''Cabin again''
   \<and> async_step_user (ex_discover (Returns ex_info)) [] ex_flow (Some ex_conn)
       = (ex_flow\<lparr>unique_id := Some ''0123abcd''\<rparr>, CreateConfigEntry ''Cabin'' ex_conn)
   \<and> host_finish [] (async_step_user (ex_discover (Returns ex_info)) [] ex_flow (Some ex_conn))
       = [\<lparr>entry_unique_id = Some ''0123abcd'', entry_title = ''Cabin'', entry_data = ex_conn\<rparr>]
   \<and> snd (async_step_user (ex_discover (Returns ex_info2))
             (host_finish []
                (async_step_user (ex_discover (Returns ex_info)) [] ex_flow (Some ex_conn)))
             ex_flow (Some ex_conn2))
       = AbortFlow ''already_configured''"
proof -
  have h1: "ex_discover (Returns ex_info) (host ex_conn) (port ex_conn) (secure ex_conn)
      (access_token ex_conn) (verify_ssl ex_conn) = Returns ex_info"
    and h5: "ex_discover (Returns ex_info2) (host ex_conn2) (port ex_conn2) (secure ex_conn2)
      (access_token ex_conn2) (verify_ssl ex_conn2) = Returns ex_info2"
    by (simp_all add: ex_discover_def)
  have h2: "ex_info ''uuid'' = Some ''0123abcd''"
    and h3: "ex_info ''location_name'' = Some ''Cabin''"
    and h6: "ex_info2 ''uuid'' = Some ''0123abcd''"
    and h7: "ex_info2 ''location_name'' = Some ''Cabin again''"
    by (simp_all add: ex_info_def ex_info2_def)
  have h4: "\<not> list_ex (\<lambda>e. entry_unique_id e = Some ''0123abcd'') []"
    by simp
  note t = setup_unique_entry
            [where discover = "ex_discover (Returns ex_info)" and ui = ex_conn and info = ex_info
               and discover_b = "ex_discover (Returns ex_info2)" and ui_b = ex_conn2
               and info_b = ex_info2 and flow = ex_flow and flow_b = ex_flow,
             OF h1 h2 h3 h4 h5 h6 h7]
  have reg: "host_finish []
        (async_step_user (ex_discover (Returns ex_info)) [] ex_flow (Some ex_conn))
      = [\<lparr>entry_unique_id = Some ''0123abcd'', entry_title = ''Cabin'', entry_data = ex_conn\<rparr>]"
    using conjunct1 [OF conjunct2 [OF t]] by simp
  show ?thesis
    by (intro conjI h1 h2 h3 h4 h5 h6 h7 conjunct1 [OF t] reg
        conjunct1 [OF conjunct2 [OF conjunct2 [OF t]]])
qed

end
